theory Spec2Isabelle
  imports Main "HOL-Library.Sublist"
begin

section \<open>Madj2kSlideMenu: templating\<close>

text \<open>
  JavaScript strings are modelled as \<open>string\<close>. Exceptions are values of \<open>error\<close>;
  a function that can throw returns \<open>error + 'a\<close>.
\<close>

datatype error = TypeError string | SyntaxError string

subsection \<open>Menu items\<close>

text \<open>
  One entry of \<open>menuItemsJson\<close>. Truthiness tests of the source (\<open>item.active\<close>,
  \<open>item.hasSubpages\<close>, ...) are booleans; \<open>item.linkType\<close> and \<open>item.target\<close> are
  strings that count as falsy when empty; \<open>item.data.uid\<close> and \<open>item.data.pid\<close> are the
  texts the values render to.
\<close>

datatype MenuItem = MenuItem
  (active: bool) (current: bool) (hasSubpages: bool) (linkType: string) (isLinked: bool)
  (uid: string) (pid: string) (titleRaw: string) (title: string) (link: string)
  (target: string) (children: "MenuItem list")

text \<open>
  \<open>this.settings\<close>: the options of the constructor with their defaults merged in, and
  what the controller stores there later (\<open>isLoaded\<close>, the three templates, \<open>$cards\<close>,
  \<open>$activeCards\<close>, \<open>$openCard\<close>, \<open>$menuWrap\<close>). Elements of the menu are named by their
  position in the element store of the page state below.
\<close>

record settings =
  menuItemsJson :: "MenuItem list"
  openStatusClass :: string
  openStatusBodyClass :: string
  openStatusBodyClassOverflow :: string
  openCardStatusClass :: string
  activeStatusClass :: string
  currentStatusClass :: string
  hasChildrenStatusClass :: string
  linkTypeClass :: string
  isLinkedClass :: string
  animationOpenStatusClass :: string
  animationCloseStatusClass :: string
  lastCardToggleClass :: string
  nextCardToggleClass :: string
  menuWrapClass :: string
  menuCardClass :: string
  templatePartsClass :: string
  animationDuration :: nat
  startOnHome :: bool
  scrollHelper :: bool
  isLoaded :: bool
  menuWrapTemplate :: string
  menuItemTemplate :: string
  subMenuWrapTemplate :: string
  cards :: "nat list"
  activeCards :: "nat list"
  openCard :: "nat option"
  menuWrap :: "nat option"

subsection \<open>Numbers as text\<close>

definition digit :: "nat \<Rightarrow> char" where
  "digit d = ''0123456789'' ! d"

function showNat :: "nat \<Rightarrow> string" where
  "showNat n = (if n < 10 then [digit n] else showNat (n div 10) @ [digit (n mod 10)])"
  by pat_completeness auto
termination
  by (relation "measure id") auto

declare showNat.simps [simp del]

subsection \<open>replaceHtml\<close>

text \<open>The class \<open>\w\<close> of a JavaScript regular expression without flags.\<close>

definition isWordChar :: "char \<Rightarrow> bool" where
  "isWordChar c =
     (c \<in> set ''abcdefghijklmnopqrstuvwxyzABCDEFGHIJKLMNOPQRSTUVWXYZ0123456789_'')"

text \<open>
  A match of \<open>/%(\w+)%/\<close> at the start of the text: the key and the text after the
  closing percent sign. \<open>\w+\<close> is greedy, and the character after the run must be the
  percent sign, which is no word character, so giving characters back never helps.
\<close>

definition matchToken :: "string \<Rightarrow> (string \<times> string) option" where
  "matchToken s =
     (case s of
        [] \<Rightarrow> None
      | c # cs \<Rightarrow>
          if c = CHR ''%'' then
            (let key = takeWhile isWordChar cs; rest = dropWhile isWordChar cs in
             if key = [] then None
             else (case rest of
                     [] \<Rightarrow> None
                   | d # after \<Rightarrow> if d = CHR ''%'' then Some (key, after) else None))
          else None)"

text \<open>
  The replacer: \<open>Object.prototype.hasOwnProperty.call(data, key) ? data[key] : ''\<close>.
  A marker object is an association list of its own properties.
\<close>

definition ownValue :: "(string \<times> string) list \<Rightarrow> string \<Rightarrow> string" where
  "ownValue data key = (case map_of data key of Some v \<Rightarrow> v | None \<Rightarrow> [])"

lemma matchToken_shorter: "matchToken s = Some (key, after) \<Longrightarrow> length after < length s"
proof -
  assume m: "matchToken s = Some (key, after)"
  then obtain c cs where s: "s = c # cs"
    by (cases s) (auto simp: matchToken_def)
  from m s have "dropWhile isWordChar cs = CHR ''%'' # after"
    by (auto simp: matchToken_def Let_def split: if_splits list.splits)
  then have "length (dropWhile isWordChar cs) = Suc (length after)"
    by simp
  moreover have "length (dropWhile isWordChar cs) \<le> length cs"
    by (rule length_dropWhile_le)
  ultimately show ?thesis using s by simp
qed

function replaceHtml :: "string \<Rightarrow> (string \<times> string) list \<Rightarrow> string" where
  "replaceHtml [] data = []"
| "replaceHtml (c # cs) data =
     (case matchToken (c # cs) of
        Some (key, after) \<Rightarrow> ownValue data key @ replaceHtml after data
      | None \<Rightarrow> c # replaceHtml cs data)"
  by pat_completeness auto
termination
  by (relation "measure (\<lambda>(s, data). length s)") (auto dest: matchToken_shorter)

subsection \<open>Comment stripping\<close>

text \<open>
  \<open>html.replace(/<!--[\s\S]*?-->/g, '')\<close>: a match starts with the comment opener and,
  the star being lazy, ends with the first closer after the opener.
\<close>

fun afterCommentEnd :: "string \<Rightarrow> string option" where
  "afterCommentEnd [] = None"
| "afterCommentEnd (c # cs) =
     (if take 3 (c # cs) = ''-->'' then Some (drop 2 cs) else afterCommentEnd cs)"

definition matchComment :: "string \<Rightarrow> string option" where
  "matchComment s = (if take 4 s = ''<!--'' then afterCommentEnd (drop 4 s) else None)"

lemma afterCommentEnd_shorter: "afterCommentEnd s = Some r \<Longrightarrow> length r < length s"
  by (induction s) (auto split: if_splits)

lemma matchComment_shorter: "matchComment s = Some r \<Longrightarrow> length r < length s"
  by (auto simp: matchComment_def split: if_splits dest!: afterCommentEnd_shorter)

function stripComments :: "string \<Rightarrow> string" where
  "stripComments [] = []"
| "stripComments (c # cs) =
     (case matchComment (c # cs) of
        Some after \<Rightarrow> stripComments after
      | None \<Rightarrow> c # stripComments cs)"
  by pat_completeness auto
termination
  by (relation "measure length") (auto dest: matchComment_shorter)

subsection \<open>getItemMarker and buildHtml\<close>

definition getItemMarker ::
  "settings \<Rightarrow> MenuItem \<Rightarrow> MenuItem option \<Rightarrow> nat \<Rightarrow> (string \<times> string) list" where
  "getItemMarker st item parentItem level =
     [(''activeClass'', if active item then activeStatusClass st else ''''),
      (''currentClass'', if current item then currentStatusClass st else ''''),
      (''levelClass'', ''level-'' @ showNat (level + 1)),
      (''ariaCurrent'', if current item then ''page'' else ''''),
      (''ariaExpanded'', if current item then ''true'' else ''false''),
      (''hasChildrenClass'', if hasSubpages item then hasChildrenStatusClass st else ''''),
      (''hasChildren'', if hasSubpages item then ''true'' else ''false''),
      (''linkTypeClass'',
         if linkType item \<noteq> [] then linkTypeClass st @ ''-'' @ linkType item else ''''),
      (''isLinkedClass'', if isLinked item then isLinkedClass st else ''''),
      (''uid'', uid item),
      (''titleRaw'', titleRaw item),
      (''title'', title item),
      (''link'', link item),
      (''target'', if target item \<noteq> [] then target item else ''_self''),
      (''parentUid'', pid item),
      (''parentTitle'', case parentItem of Some p \<Rightarrow> title p | None \<Rightarrow> ''''),
      (''parentLink'', case parentItem of Some p \<Rightarrow> link p | None \<Rightarrow> ''''),
      (''parentTarget'',
         case parentItem of
           Some p \<Rightarrow> if target p \<noteq> [] then target p else ''_self''
         | None \<Rightarrow> ''_self''),
      (''ifIsLinkedStart'', if isLinked item then '''' else ''<!--''),
      (''ifIsLinkedEnd'', if isLinked item then '''' else ''-->''),
      (''ifIsNotLinkedStart'', if isLinked item then ''<!--'' else ''''),
      (''ifIsNotLinkedEnd'', if isLinked item then ''-->'' else ''''),
      (''ifHasChildrenStart'', if hasSubpages item then '''' else ''<!--''),
      (''ifHasChildrenEnd'', if hasSubpages item then '''' else ''-->''),
      (''ifHasNoChildrenStart'', if hasSubpages item then ''<!--'' else ''''),
      (''ifHasNoChildrenEnd'', if hasSubpages item then ''-->'' else '''')]"

text \<open>
  \<open>buildHtml\<close> with its \<open>items.forEach\<close> loop; \<open>forEachItem\<close> carries the \<open>html\<close>
  accumulated so far. Reading \<open>items[0].data\<close> of an empty array throws.
\<close>

function buildHtml ::
    "settings \<Rightarrow> MenuItem list \<Rightarrow> MenuItem option \<Rightarrow> nat \<Rightarrow> error + string"
  and forEachItem ::
    "settings \<Rightarrow> MenuItem list \<Rightarrow> MenuItem option \<Rightarrow> nat \<Rightarrow> string \<Rightarrow> error + string"
where
  "buildHtml st items parentItem level =
     (case forEachItem st items parentItem level [] of
        Inl e \<Rightarrow> Inl e
      | Inr html \<Rightarrow>
          (case parentItem of
             Some p \<Rightarrow>
               Inr (stripComments
                     (replaceHtml (subMenuWrapTemplate st)
                        (getItemMarker st p None level @ [(''menuItems'', html)])))
           | None \<Rightarrow>
               (case items of
                  [] \<Rightarrow> Inl (TypeError ''items[0] is undefined'')
                | first # _ \<Rightarrow>
                    Inr (stripComments
                          (replaceHtml (menuWrapTemplate st)
                             [(''uid'', pid first), (''menuItems'', html),
                              (''levelClass'', ''level-1'')])))))"
| "forEachItem st [] parentItem level html = Inr html"
| "forEachItem st (item # rest) parentItem level html =
     (if hasSubpages item \<and> children item \<noteq> [] then
        (case buildHtml st (children item) (Some item) (level + 1) of
           Inl e \<Rightarrow> Inl e
         | Inr submenu \<Rightarrow>
             forEachItem st rest parentItem level
               (html @ replaceHtml (menuItemTemplate st)
                  (getItemMarker st item parentItem level @ [(''submenu'', submenu)])))
      else
        forEachItem st rest parentItem level
          (html @ replaceHtml (menuItemTemplate st) (getItemMarker st item parentItem level)))"
  by pat_completeness auto
termination
proof (relation "measure (\<lambda>x. case x of
          Inl (st, items, p, l) \<Rightarrow> 2 * size_list size items + 1
        | Inr (st, items, p, l, h) \<Rightarrow> 2 * size_list size items)")
  fix st :: "settings" and item :: MenuItem and rest :: "MenuItem list"
    and parentItem :: "MenuItem option" and level :: nat and html :: string
  have "size_list size (children item) < size item"
    by (cases item) simp
  then show "(Inl (st, children item, Some item, level + 1), Inr (st, item # rest, parentItem, level, html))
        \<in> measure (\<lambda>x. case x of
          Inl (st, items, p, l) \<Rightarrow> 2 * size_list size items + 1
        | Inr (st, items, p, l, h) \<Rightarrow> 2 * size_list size items)"
    by simp
qed auto

declare buildHtml.simps [simp del]

section \<open>The controller on a page\<close>

subsection \<open>Elements, effects and the page state\<close>

text \<open>
  An element below the menu container, with the attributes the controller reads or
  writes. \<open>parentElement\<close> is the position of the parent in the store (\<open>None\<close> for a
  child of the container itself); \<open>rectLeft\<close> is \<open>getBoundingClientRect().left\<close>.
\<close>

record element =
  tagName :: string
  elemId :: string
  classList :: "string list"
  ariaControls :: "string option"
  ariaExpanded :: "string option"
  tabindex :: "string option"
  parentCard :: "string option"
  parentElement :: "nat option"
  rectLeft :: int

datatype node = Document | Window | Body | Helper | Inner | Toggle | Menu | Elem nat

datatype handler =
  ToggleEvent | CloseEvent | KeyboardEvent | PreviousCardEvent | NextCardEvent
  | ResizeCardsEvent | PositionMenuEvent

text \<open>The closures handed to \<open>setTimeout\<close> and \<open>requestAnimationFrame\<close>.\<close>

datatype callback =
  OpenDone | CloseDone | PreviousDone nat nat | NextDone nat | FocusNode node
  | AnimateTo node "string option" "string option"

text \<open>
  Everything the controller does to the page is appended to a trace, in program order;
  what the controller reads back later is kept in the state as well.
\<close>

datatype effect =
  Dispatch string
  | Warn string
  | ClassAdd node string
  | ClassRemove node string
  | SetAttribute node string string
  | RemoveAttribute node string
  | SetStyle node string string
  | SetInnerHTML node string
  | AddEventListener node string handler
  | SetTimeout callback nat
  | RequestAnimationFrame callback
  | Focus node
  | ScrollTo int
  | PreventDefault

text \<open>
  The page around \<open>this.settings\<close>: \<open>menuClassList\<close> is the class list of \<open>$menu\<close>
  (\<open>None\<close> when \<open>document.getElementById\<close> found no container), \<open>elems\<close> the elements
  below it in document order, then the toggle element \<open>this.$element\<close>, the body with
  the two scroll helper elements, the template elements of the document as (class list,
  \<open>data-type\<close>, \<open>innerHTML\<close>), and the layout values the controller reads:
  \<open>refBottom\<close> is the bottom edge of \<open>$positionReference || $element\<close>.
\<close>

record world =
  settings :: settings
  menuClassList :: "string list option"
  elems :: "element list"
  toggleClassList :: "string list"
  toggleAriaExpanded :: "string option"
  bodyClassList :: "string list"
  helperPresent :: bool
  innerPresent :: bool
  helperScrollTop :: "int option"
  templateParts :: "(string list \<times> string \<times> string) list"
  scrollHeight :: int
  innerHeight :: int
  innerWidth :: int
  scrollTop :: int
  refBottom :: int
  trace :: "effect list"

definition bindE :: "error + 'a \<Rightarrow> ('a \<Rightarrow> error + 'b) \<Rightarrow> error + 'b" where
  "bindE m f = (case m of Inl e \<Rightarrow> Inl e | Inr x \<Rightarrow> f x)"

definition showInt :: "int \<Rightarrow> string" where
  "showInt i = (if i < 0 then ''-'' @ showNat (nat (- i)) else showNat (nat i))"

definition emit :: "effect list \<Rightarrow> world \<Rightarrow> world" where
  "emit es w = w\<lparr>trace := trace w @ es\<rparr>"

definition dispatchEvent :: "string \<Rightarrow> world \<Rightarrow> world" where
  "dispatchEvent name w = emit [Dispatch name] w"

subsection \<open>Class lists and queries\<close>

definition addToken :: "string \<Rightarrow> string list \<Rightarrow> string list" where
  "addToken c cl = (if c \<in> set cl then cl else cl @ [c])"

definition removeToken :: "string \<Rightarrow> string list \<Rightarrow> string list" where
  "removeToken c cl = removeAll c cl"

definition hasClass :: "string \<Rightarrow> element \<Rightarrow> bool" where
  "hasClass c e = (c \<in> set (classList e))"

text \<open>\<open>querySelectorAll\<close> below the container: the matching positions in document order.\<close>

definition queryAll :: "(element \<Rightarrow> bool) \<Rightarrow> element list \<Rightarrow> nat list" where
  "queryAll P es = filter (\<lambda>i. P (es ! i)) [0..<length es]"

definition queryFirst :: "(element \<Rightarrow> bool) \<Rightarrow> element list \<Rightarrow> nat option" where
  "queryFirst P es = (case queryAll P es of [] \<Rightarrow> None | i # _ \<Rightarrow> Some i)"

text \<open>
  The chain of \<open>parentElement\<close> inside the container, nearest first. A parent precedes
  its children in document order.
\<close>

function ancestors :: "element list \<Rightarrow> nat \<Rightarrow> nat list" where
  "ancestors es i =
     (if i < length es then
        (case parentElement (es ! i) of
           Some p \<Rightarrow> if p < i then p # ancestors es p else []
         | None \<Rightarrow> [])
      else [])"
  by pat_completeness auto
termination
  by (relation "measure snd") auto

declare ancestors.simps [simp del]

text \<open>\<open>card.querySelectorAll\<close>: the matching descendants of an element.\<close>

definition queryAllIn :: "nat \<Rightarrow> (element \<Rightarrow> bool) \<Rightarrow> element list \<Rightarrow> nat list" where
  "queryAllIn c P es = filter (\<lambda>i. c \<in> set (ancestors es i) \<and> P (es ! i)) [0..<length es]"

definition isFocusable :: "element \<Rightarrow> bool" where
  "isFocusable e = (tagName e \<in> set [''a'', ''button'', ''input'', ''textarea'', ''select''])"

text \<open>A \<open>forEach\<close> over elements found by a query, changing each in the store.\<close>

definition forEachElem :: "nat list \<Rightarrow> (element \<Rightarrow> element) \<Rightarrow> element list \<Rightarrow> element list" where
  "forEachElem idxs f es = map (\<lambda>(i, e). if i \<in> set idxs then f e else e) (enumerate 0 es)"

definition elemClassAdd :: "nat \<Rightarrow> string \<Rightarrow> world \<Rightarrow> world" where
  "elemClassAdd i c w =
     emit [ClassAdd (Elem i) c]
       (w\<lparr>elems := forEachElem [i] (\<lambda>e. e\<lparr>classList := addToken c (classList e)\<rparr>) (elems w)\<rparr>)"


definition menuClassAdd :: "string \<Rightarrow> world \<Rightarrow> world" where
  "menuClassAdd c w =
     emit [ClassAdd Menu c] (w\<lparr>menuClassList := map_option (addToken c) (menuClassList w)\<rparr>)"

definition menuClassRemove :: "string \<Rightarrow> world \<Rightarrow> world" where
  "menuClassRemove c w =
     emit [ClassRemove Menu c] (w\<lparr>menuClassList := map_option (removeToken c) (menuClassList w)\<rparr>)"

definition toggleClassAdd :: "string \<Rightarrow> world \<Rightarrow> world" where
  "toggleClassAdd c w =
     emit [ClassAdd Toggle c] (w\<lparr>toggleClassList := addToken c (toggleClassList w)\<rparr>)"

definition toggleClassRemove :: "string \<Rightarrow> world \<Rightarrow> world" where
  "toggleClassRemove c w =
     emit [ClassRemove Toggle c] (w\<lparr>toggleClassList := removeToken c (toggleClassList w)\<rparr>)"

definition toggleSetAriaExpanded :: "string \<Rightarrow> world \<Rightarrow> world" where
  "toggleSetAriaExpanded v w =
     emit [SetAttribute Toggle ''aria-expanded'' v] (w\<lparr>toggleAriaExpanded := Some v\<rparr>)"

text \<open>\<open>document.getElementById\<close>, for the elements below the container.\<close>

definition getElementById :: "string \<Rightarrow> world \<Rightarrow> nat option" where
  "getElementById x w = queryFirst (\<lambda>e. elemId e = x) (elems w)"

text \<open>
  \<open>document.querySelector(`.${templatePartsClass}[data-type="..."]`)?.innerHTML || ''\<close>.
\<close>

definition templateHtml :: "string \<Rightarrow> world \<Rightarrow> string" where
  "templateHtml ty w =
     (case filter (\<lambda>(cl, t, h). templatePartsClass (settings w) \<in> set cl \<and> t = ty) (templateParts w) of
        [] \<Rightarrow> []
      | (cl, t, h) # _ \<Rightarrow> h)"

subsection \<open>Tab order, ARIA state and focus\<close>

definition disableTabIndexOnAllCards :: "world \<Rightarrow> error + world" where
  "disableTabIndexOnAllCards w =
     (case menuClassList w of
        None \<Rightarrow> Inl (TypeError ''$menu is null'')
      | Some _ \<Rightarrow>
          (let found = queryAll isFocusable (elems w) in
           Inr (emit (map (\<lambda>i. SetAttribute (Elem i) ''tabindex'' ''-1'') found)
                  (w\<lparr>elems := forEachElem found (\<lambda>e. e\<lparr>tabindex := Some ''-1''\<rparr>) (elems w)\<rparr>))))"

definition toggleTabIndexOnOpenCard :: "world \<Rightarrow> error + world" where
  "toggleTabIndexOnOpenCard w0 =
     bindE (disableTabIndexOnAllCards w0) (\<lambda>w.
       if openStatusClass (settings w) \<notin> set (toggleClassList w) then Inr w
       else
         (case openCard (settings w) of
            None \<Rightarrow> Inl (TypeError ''$openCard is null'')
          | Some c \<Rightarrow>
              (let found =
                     filter (\<lambda>i. 0 < rectLeft (elems w ! i) \<and> rectLeft (elems w ! i) \<le> innerWidth w)
                       (queryAllIn c isFocusable (elems w))
               in Inr (emit (map (\<lambda>i. RemoveAttribute (Elem i) ''tabindex'') found)
                         (w\<lparr>elems := forEachElem found (\<lambda>e. e\<lparr>tabindex := None\<rparr>) (elems w)\<rparr>)))))"

definition toggleWaiAriaForOpenCard :: "world \<Rightarrow> error + world" where
  "toggleWaiAriaForOpenCard w0 =
     (case menuClassList w0 of
        None \<Rightarrow> Inl (TypeError ''$menu is null'')
      | Some _ \<Rightarrow>
          (let toggles = queryAll (hasClass (nextCardToggleClass (settings w0))) (elems w0);
               w = emit (map (\<lambda>i. SetAttribute (Elem i) ''aria-expanded'' ''false'') toggles)
                     (w0\<lparr>elems :=
                         forEachElem toggles (\<lambda>e. e\<lparr>ariaExpanded := Some ''false''\<rparr>) (elems w0)\<rparr>)
           in if openStatusClass (settings w) \<in> set (toggleClassList w) then
                (case openCard (settings w) of
                   None \<Rightarrow> Inl (TypeError ''$openCard is null'')
                 | Some c \<Rightarrow>
                     (case queryFirst
                             (\<lambda>e. hasClass (nextCardToggleClass (settings w)) e \<and>
                                  ariaControls e = Some (elemId (elems w ! c)))
                             (elems w) of
                        None \<Rightarrow> Inr w
                      | Some t \<Rightarrow>
                          Inr (emit [SetAttribute (Elem t) ''aria-expanded'' ''true'']
                                 (w\<lparr>elems :=
                                     forEachElem [t] (\<lambda>e. e\<lparr>ariaExpanded := Some ''true''\<rparr>)
                                       (elems w)\<rparr>))))
              else Inr w))"


definition focusToggle :: "nat \<Rightarrow> world \<Rightarrow> world" where
  "focusToggle timeout w = emit [SetTimeout (FocusNode Toggle) timeout] w"

subsection \<open>Geometry and animation\<close>

definition resizeCards :: "world \<Rightarrow> world" where
  "resizeCards w =
     (let height = innerHeight w - refBottom w in
      emit (map (\<lambda>c. SetStyle (Elem c) ''height'' (showInt height @ ''px'')) (cards (settings w))) w)"

text \<open>
  The walk up \<open>parentElement\<close> leaves the container; of the elements above it the state
  knows the container itself and the body.
\<close>

definition repositionCards :: "world \<Rightarrow> error + world" where
  "repositionCards w0 =
     (let w1 = emit (concat (map (\<lambda>c. [SetStyle (Elem c) ''transition'' ''none'',
                                        SetStyle (Elem c) ''left'' ''100%'']) (cards (settings w0)))) w0;
          w = (case openCard (settings w1) of
                 Some c \<Rightarrow> emit [SetStyle (Elem c) ''left'' ''0''] w1
               | None \<Rightarrow> w1)
      in case openCard (settings w) of
           None \<Rightarrow> Inl (TypeError ''$openCard is null'')
         | Some c \<Rightarrow>
             Inr (emit
                    (map (\<lambda>p. SetStyle (Elem p) ''left'' ''0'')
                       (filter (\<lambda>p. hasClass (menuCardClass (settings w)) (elems w ! p)) (ancestors (elems w) c))
                     @ (case menuClassList w of
                          Some cl \<Rightarrow>
                            if menuCardClass (settings w) \<in> set cl then [SetStyle Menu ''left'' ''0''] else []
                        | None \<Rightarrow> [])
                     @ (if menuCardClass (settings w) \<in> set (bodyClassList w)
                        then [SetStyle Body ''left'' ''0''] else []))
                    w))"

definition positionMenu :: "world \<Rightarrow> error + world" where
  "positionMenu w =
     (case menuClassList w of
        None \<Rightarrow> Inl (TypeError ''$menu is null'')
      | Some _ \<Rightarrow> Inr (emit [SetStyle Menu ''top'' (showInt (refBottom w) @ ''px'')] w))"

definition animateElement ::
  "nat option \<Rightarrow> string option \<times> string option \<Rightarrow> string option \<times> string option \<Rightarrow> world
     \<Rightarrow> error + world" where
  "animateElement el from to w =
     (case el of
        None \<Rightarrow> Inl (TypeError ''el is null'')
      | Some i \<Rightarrow>
          Inr (emit
                 ([SetStyle (Elem i) ''transition'' ''none'']
                  @ (case fst from of Some l \<Rightarrow> [SetStyle (Elem i) ''left'' l] | None \<Rightarrow> [])
                  @ (case snd from of Some t \<Rightarrow> [SetStyle (Elem i) ''top'' t] | None \<Rightarrow> [])
                  @ [SetStyle (Elem i) ''transition''
                       (''all '' @ showNat (animationDuration (settings w)) @ ''ms ease''),
                     RequestAnimationFrame (AnimateTo (Elem i) (fst to) (snd to))])
                 w))"

subsection \<open>Scroll lock\<close>

text \<open>\<open>DOMTokenList.add\<close> throws a \<open>SyntaxError\<close> for the empty token.\<close>

definition toggleNoScroll :: "world \<Rightarrow> error + world" where
  "toggleNoScroll w =
     (if scrollHelper (settings w) then
        (let noScrollClass =
               (if scrollHeight w > innerHeight w then openStatusBodyClassOverflow (settings w) else [])
         in if openStatusBodyClass (settings w) \<notin> set (bodyClassList w) then
              (if \<not> helperPresent w then Inl (TypeError ''helper is null'')
               else if \<not> innerPresent w then Inl (TypeError ''inner is null'')
               else if noScrollClass = [] then
                 Inl (SyntaxError ''The token provided must not be empty'')
               else
                 Inr (emit
                        [SetAttribute Helper ''data-scroll-top'' (showInt (- scrollTop w)),
                         SetStyle Helper ''cssText''
                           ''position:relative;overflow:hidden;height:100vh;width:100%'',
                         SetStyle Inner ''cssText''
                           (''position:absolute;top:'' @ showInt (- scrollTop w)
                              @ ''px;height:100%;width:100%''),
                         ClassAdd Body noScrollClass,
                         ScrollTo 0]
                        (w\<lparr>helperScrollTop := Some (- scrollTop w),
                           bodyClassList := addToken noScrollClass (bodyClassList w)\<rparr>)))
            else
              (if \<not> helperPresent w then Inl (TypeError ''helper is null'')
               else if \<not> innerPresent w then Inl (TypeError ''inner is null'')
               else
                 (let top = (case helperScrollTop w of Some v \<Rightarrow> v | None \<Rightarrow> 0) * (- 1) in
                  Inr (emit
                         [RemoveAttribute Helper ''style'',
                          RemoveAttribute Inner ''style'',
                          ClassRemove Body (openStatusBodyClassOverflow (settings w)),
                          ScrollTo top]
                         (w\<lparr>bodyClassList :=
                              removeToken (openStatusBodyClassOverflow (settings w)) (bodyClassList w)\<rparr>)))))
      else Inr w)"

subsection \<open>Cards\<close>

text \<open>The card is \<open>None\<close> for \<open>undefined\<close>, which an index outside \<open>$activeCards\<close> yields.\<close>

definition setOpenCard :: "nat option \<Rightarrow> world \<Rightarrow> error + world" where
  "setOpenCard crd w0 =
     (let w1 = w0\<lparr>settings := (settings w0)\<lparr>openCard := crd\<rparr>\<rparr>;
          w = emit (map (\<lambda>c. ClassRemove (Elem c) (openCardStatusClass (settings w1))) (cards (settings w1)))
                (w1\<lparr>elems :=
                    forEachElem (cards (settings w1))
                      (\<lambda>e. e\<lparr>classList := removeToken (openCardStatusClass (settings w1)) (classList e)\<rparr>)
                      (elems w1)\<rparr>)
      in case crd of
           None \<Rightarrow> Inl (TypeError ''card is undefined'')
         | Some c \<Rightarrow> Inr (elemClassAdd c (openCardStatusClass (settings w)) w))"


subsection \<open>Loading the menu\<close>

definition bindEvents :: "world \<Rightarrow> error + world" where
  "bindEvents w =
     (case menuClassList w of
        None \<Rightarrow> Inl (TypeError ''$menu is null'')
      | Some _ \<Rightarrow>
          Inr (emit
                 (map (\<lambda>i. AddEventListener (Elem i) ''click'' PreviousCardEvent)
                    (queryAll (hasClass (lastCardToggleClass (settings w))) (elems w))
                  @ concat (map (\<lambda>i. [AddEventListener (Elem i) ''click'' NextCardEvent,
                                       AddEventListener (Elem i) ''keydown'' KeyboardEvent])
                              (queryAll (hasClass (nextCardToggleClass (settings w))) (elems w)))
                  @ map (\<lambda>i. AddEventListener (Elem i) ''keydown'' KeyboardEvent)
                      (queryAll isFocusable (elems w))
                  @ [AddEventListener Window ''resize'' ResizeCardsEvent,
                     AddEventListener Window ''resize'' PositionMenuEvent])
                 w))"

text \<open>
  Assigning \<open>innerHTML\<close> replaces the elements below the container by what the browser
  parses from the text; the parser is a parameter.
\<close>

definition setInnerHTML :: "(string \<Rightarrow> element list) \<Rightarrow> string \<Rightarrow> world \<Rightarrow> world" where
  "setInnerHTML parseHtml html w = emit [SetInnerHTML Menu html] (w\<lparr>elems := parseHtml html\<rparr>)"

definition loadTemplates :: "(string \<Rightarrow> element list) \<Rightarrow> world \<Rightarrow> error + world" where
  "loadTemplates parseHtml w0 =
     (if menuItemsJson (settings w0) \<noteq> [] then
        (let w = w0\<lparr>settings := (settings w0)
                      \<lparr>menuWrapTemplate := templateHtml ''menuWrap'' w0,
                       menuItemTemplate := templateHtml ''menuItem'' w0,
                       subMenuWrapTemplate := templateHtml ''subMenuWrap'' w0\<rparr>\<rparr>
         in if menuWrapTemplate (settings w) \<noteq> [] \<and> menuItemTemplate (settings w) \<noteq> []
               \<and> subMenuWrapTemplate (settings w) \<noteq> []
            then bindE (buildHtml (settings w) (menuItemsJson (settings w)) None 0)
                   (\<lambda>html. Inr (setInnerHTML parseHtml html w))
            else Inr w)
      else Inr w0)"

definition loadMenu :: "(string \<Rightarrow> element list) \<Rightarrow> world \<Rightarrow> error + (bool \<times> world)" where
  "loadMenu parseHtml w0 =
     (if isLoaded (settings w0) then Inr (True, w0)
      else
        (case menuClassList w0 of
           None \<Rightarrow> Inr (False, emit [Warn ''Menu container not found. Can not load menu.''] w0)
         | Some _ \<Rightarrow>
             bindE (loadTemplates parseHtml w0) (\<lambda>w1.
               (let w2 = w1\<lparr>settings := (settings w1)
                             \<lparr>menuWrap :=
                                queryFirst (hasClass (menuWrapClass (settings w1))) (elems w1)\<rparr>\<rparr>;
                    w3 = w2\<lparr>settings := (settings w2)
                             \<lparr>cards :=
                                queryAll (hasClass (menuCardClass (settings w2))) (elems w2)\<rparr>\<rparr>;
                    w4 = (case cards (settings w3) of
                            [] \<Rightarrow> w3
                          | c # _ \<Rightarrow> elemClassAdd c (activeStatusClass (settings w3)) w3);
                    w5 = w4\<lparr>settings := (settings w4)
                             \<lparr>activeCards :=
                                queryAll (\<lambda>e. hasClass (menuCardClass (settings w4)) e \<and>
                                               hasClass (activeStatusClass (settings w4)) e)
                                  (elems w4)\<rparr>\<rparr>
                in case menuWrap (settings w5) of
                     None \<Rightarrow> Inl (TypeError ''$menuWrap is null'')
                   | Some mw \<Rightarrow>
                       (let w6 = emit [SetStyle (Elem mw) ''top'' ''-100%''] w5;
                            w7 = w6\<lparr>settings := (settings w6)\<lparr>isLoaded := True\<rparr>\<rparr>
                        in bindE (bindEvents w7) (\<lambda>w8. Inr (True, w8)))))))"

subsection \<open>Opening and closing\<close>

text \<open>\<open>this.settings.$activeCards[this.settings.startOnHome ? 0 : length - 1]\<close>.\<close>

definition initialCard :: "world \<Rightarrow> nat option" where
  "initialCard w =
     (let idx = (if startOnHome (settings w) then 0 else int (length (activeCards (settings w))) - 1) in
      if 0 \<le> idx \<and> idx < int (length (activeCards (settings w))) then Some (activeCards (settings w) ! nat idx)
      else None)"

definition "open" :: "(string \<Rightarrow> element list) \<Rightarrow> world \<Rightarrow> error + (bool \<times> world)" where
  "open parseHtml w0 =
     bindE (loadMenu parseHtml w0) (\<lambda>(loaded, w1).
       if \<not> loaded then Inr (False, w1)
       else
         (case menuClassList w1 of
            None \<Rightarrow> Inl (TypeError ''$menu is null'')
          | Some cl \<Rightarrow>
              if openStatusClass (settings w1) \<in> set cl \<or> animationOpenStatusClass (settings w1) \<in> set cl
              then Inr (False, w1)
              else
                bindE (toggleNoScroll
                         (dispatchEvent ''madj2k-slidemenu-opening''
                            (dispatchEvent ''madj2k-flyoutmenu-close'' w1))) (\<lambda>w2.
                bindE (disableTabIndexOnAllCards w2) (\<lambda>w3.
                bindE (positionMenu w3) (\<lambda>w4.
                  (let w5 = menuClassAdd (animationOpenStatusClass (settings w4))
                              (menuClassAdd (openStatusClass (settings w4)) w4);
                       w6 = toggleClassAdd (animationOpenStatusClass (settings w5))
                              (toggleClassAdd (openStatusClass (settings w5)) w5);
                       w7 = toggleSetAriaExpanded ''true'' w6
                   in bindE (setOpenCard (initialCard w7) w7) (\<lambda>w8.
                      bindE (repositionCards (resizeCards w8)) (\<lambda>w9.
                      bindE (animateElement (menuWrap (settings w9)) (None, Some ''-100%'') (None, Some ''0'') w9)
                        (\<lambda>w10. Inr (True, emit [SetTimeout OpenDone (animationDuration (settings w10))] w10))))))))))"


definition close :: "world \<Rightarrow> error + (bool \<times> world)" where
  "close w0 =
     (case menuClassList w0 of
        None \<Rightarrow> Inl (TypeError ''$menu is null'')
      | Some cl \<Rightarrow>
          if openStatusClass (settings w0) \<notin> set cl \<or> animationCloseStatusClass (settings w0) \<in> set cl
          then Inr (False, w0)
          else
            (let w1 = dispatchEvent ''madj2k-slidemenu-closing'' w0;
                 w2 = menuClassAdd (animationCloseStatusClass (settings w1)) w1;
                 w3 = toggleClassAdd (animationCloseStatusClass (settings w2)) w2;
                 w4 = toggleClassRemove (openStatusClass (settings w3)) w3;
                 w5 = toggleSetAriaExpanded ''false'' w4
             in bindE (toggleTabIndexOnOpenCard w5) (\<lambda>w6.
                bindE (toggleWaiAriaForOpenCard w6) (\<lambda>w7.
                bindE (animateElement (menuWrap (settings w7)) (None, Some ''0'') (None, Some ''-100%'') w7)
                  (\<lambda>w8. Inr (True, emit [SetTimeout CloseDone (animationDuration (settings w8))] w8))))))"


definition toggleEvent :: "(string \<Rightarrow> element list) \<Rightarrow> world \<Rightarrow> error + world" where
  "toggleEvent parseHtml w0 =
     bindE (open parseHtml (emit [PreventDefault] w0)) (\<lambda>(opened, w1).
       if \<not> opened then bindE (close w1) (\<lambda>(closed, w2). Inr w2) else Inr w1)"

definition closeEvent :: "world \<Rightarrow> error + world" where
  "closeEvent w0 = bindE (close (emit [PreventDefault] w0)) (\<lambda>(closed, w1). Inr w1)"

subsection \<open>Card navigation\<close>


definition previousCardEvent :: "nat \<Rightarrow> world \<Rightarrow> error + world" where
  "previousCardEvent tgt w0 =
     (let w1 = emit [PreventDefault] w0;
          controlledCard =
            getElementById (case ariaControls (elems w1 ! tgt) of Some x \<Rightarrow> x | None \<Rightarrow> ''null'') w1;
          parentCrd =
            getElementById
              (case parentCard (elems w1 ! tgt) of Some x \<Rightarrow> x | None \<Rightarrow> ''undefined'') w1
      in case (controlledCard, parentCrd) of
           (Some c, Some p) \<Rightarrow>
             bindE (disableTabIndexOnAllCards w1) (\<lambda>w2.
             bindE (animateElement (Some c) (Some ''0'', None) (Some ''100%'', None)
                      (elemClassAdd c (animationCloseStatusClass (settings w2)) w2)) (\<lambda>w3.
               Inr (emit [SetTimeout (PreviousDone c p) (animationDuration (settings w3))] w3)))
         | _ \<Rightarrow> Inr w1)"


definition nextCardEvent :: "nat \<Rightarrow> world \<Rightarrow> error + world" where
  "nextCardEvent tgt w0 =
     (let w1 = emit [PreventDefault] w0;
          controlledCard =
            getElementById (case ariaControls (elems w1 ! tgt) of Some x \<Rightarrow> x | None \<Rightarrow> ''null'') w1
      in case controlledCard of
           Some c \<Rightarrow>
             bindE (disableTabIndexOnAllCards w1) (\<lambda>w2.
             bindE (animateElement (Some c) (Some ''100%'', None) (Some ''0'', None)
                      (elemClassAdd c (animationOpenStatusClass (settings w2)) w2)) (\<lambda>w3.
               Inr (emit [SetTimeout (NextDone c) (animationDuration (settings w3))] w3)))
         | None \<Rightarrow> Inr w1)"



section \<open>Example pages\<close>

text \<open>The \<open>defaults\<close> of the constructor, with what it stores before any load.\<close>

definition defaults :: settings where
  "defaults = \<lparr>menuItemsJson = [], openStatusClass = ''open'', openStatusBodyClass = ''slide-open'',
     openStatusBodyClassOverflow = ''slide-open-overflow'', openCardStatusClass = ''show'',
     activeStatusClass = ''active'', currentStatusClass = ''current'',
     hasChildrenStatusClass = ''has-children'', linkTypeClass = ''link-type'',
     isLinkedClass = ''linked'', animationOpenStatusClass = ''opening'',
     animationCloseStatusClass = ''closing'', lastCardToggleClass = ''js-slide-nav-back'',
     nextCardToggleClass = ''js-slide-nav-next'', menuWrapClass = ''js-slide-nav-container'',
     menuCardClass = ''js-slide-nav-card'', templatePartsClass = ''js-slide-nav-tmpl'',
     animationDuration = 500, startOnHome = False, scrollHelper = True, isLoaded = False,
     menuWrapTemplate = [], menuItemTemplate = [], subMenuWrapTemplate = [], cards = [],
     activeCards = [], openCard = None, menuWrap = None\<rparr>"

definition mkElem :: "string \<Rightarrow> string \<Rightarrow> string list \<Rightarrow> nat option \<Rightarrow> element" where
  "mkElem tg i cl p = \<lparr>tagName = tg, elemId = i, classList = cl, ariaControls = None,
     ariaExpanded = None, tabindex = None, parentCard = None, parentElement = p, rectLeft = 10\<rparr>"

text \<open>
  A pre-rendered menu: the container, the root card with a link that opens the second
  card, and the second card (on the active path) with its back button and a link.
\<close>

definition demoElems :: "element list" where
  "demoElems =
     [mkElem ''div'' [] [''js-slide-nav-container''] None,
      mkElem ''div'' ''slide-card-1'' [''js-slide-nav-card''] (Some 0),
      (mkElem ''a'' [] [''js-slide-nav-next''] (Some 1))\<lparr>ariaControls := Some ''slide-card-2''\<rparr>,
      mkElem ''div'' ''slide-card-2'' [''js-slide-nav-card'', ''active''] (Some 1),
      (mkElem ''button'' [] [''js-slide-nav-back''] (Some 3))
         \<lparr>ariaControls := Some ''slide-card-2'', parentCard := Some ''slide-card-1''\<rparr>,
      mkElem ''a'' [] [] (Some 3)]"

definition demoParse :: "string \<Rightarrow> element list" where
  "demoParse html = demoElems"

text \<open>A page before the first load, on a document longer than the window.\<close>

definition demoPage :: world where
  "demoPage = \<lparr>settings = defaults, menuClassList = Some [''slide-nav''], elems = demoElems,
     toggleClassList = [''js-slide-nav-toggle''], toggleAriaExpanded = Some ''false'',
     bodyClassList = [], helperPresent = True, innerPresent = True, helperScrollTop = None,
     templateParts = [], scrollHeight = 2000, innerHeight = 800, innerWidth = 400,
     scrollTop = 120, refBottom = 60, trace = []\<rparr>"

text \<open>The same page after \<open>loadMenu\<close>, closed.\<close>

definition loadedPage :: world where
  "loadedPage = demoPage\<lparr>settings := defaults\<lparr>isLoaded := True, cards := [1, 3],
     activeCards := [1, 3], menuWrap := Some 0\<rparr>,
     elems := demoElems[1 := mkElem ''div'' ''slide-card-1'' [''js-slide-nav-card'', ''active'']
                              (Some 0)]\<rparr>"

text \<open>The loaded page with the menu open on the second card.\<close>

definition openedPage :: world where
  "openedPage = loadedPage\<lparr>settings := (settings loadedPage)\<lparr>openCard := Some 3\<rparr>,
     menuClassList := Some [''slide-nav'', ''open''],
     toggleClassList := [''js-slide-nav-toggle'', ''open''],
     toggleAriaExpanded := Some ''true'',
     elems := (elems loadedPage)
       [3 := mkElem ''div'' ''slide-card-2'' [''js-slide-nav-card'', ''active'', ''show'']
               (Some 1)]\<rparr>"

text \<open>
  A page whose container carries the open class before this controller has loaded the
  menu, as after another toggle of the same container has opened it.
\<close>

definition lazyPage :: world where
  "lazyPage = demoPage\<lparr>menuClassList := Some [''slide-nav'', ''open'']\<rparr>"

text \<open>A page where the toggle's \<open>aria-controls\<close> names no element.\<close>

definition noMenuPage :: world where
  "noMenuPage = demoPage\<lparr>menuClassList := None, elems := []\<rparr>"

section \<open>Auxiliary notions for the proofs\<close>

text \<open>
  Effects that are neither an event on the document, nor a class change of the
  container, nor the timer of \<open>open\<close> or \<open>close\<close>.
\<close>

fun quiet :: "effect \<Rightarrow> bool" where
  "quiet (Dispatch n) = False"
| "quiet (ClassAdd Menu c) = False"
| "quiet (ClassRemove Menu c) = False"
| "quiet (SetTimeout OpenDone d) = False"
| "quiet (SetTimeout CloseDone d) = False"
| "quiet e = True"

text \<open>
  A step that leaves the settings, the classes of the container, the toggle and every
  element alone, and adds only quiet effects.
\<close>

definition quietStep :: "world \<Rightarrow> world \<Rightarrow> bool" where
  "quietStep w w' \<longleftrightarrow>
     settings w' = settings w \<and> menuClassList w' = menuClassList w \<and>
     toggleClassList w' = toggleClassList w \<and> toggleAriaExpanded w' = toggleAriaExpanded w \<and>
     map classList (elems w') = map classList (elems w) \<and>
     (\<exists>t. trace w' = trace w @ t \<and> list_all quiet t)"



text \<open>The menu of the documentation: two items, the first with one child.\<close>

definition demoItems :: "MenuItem list" where
  "demoItems =
     [MenuItem True False True [] False ''2'' ''1'' ''Main Item'' ''Main Item'' ''/main'' ''_self''
        [MenuItem False False False [] False ''3'' ''2'' ''Sub Item'' ''Sub Item'' ''/main/sub''
           ''_self'' []],
      MenuItem False False False [] False ''4'' ''1'' ''Second Item'' ''Second Item'' ''/second''
        ''_self'' []]"

text \<open>Small templates with a conditional block and a placeholder no marker defines.\<close>

definition demoTemplates :: settings where
  "demoTemplates = defaults\<lparr>
     menuWrapTemplate := ''<nav id=\"c%uid%\">%menuItems%</nav>'',
     menuItemTemplate := ''<li>%ifHasChildrenStart%<b>%ifHasChildrenEnd%%title%%nope%</li>'',
     subMenuWrapTemplate := ''<ul>%menuItems%</ul>''\<rparr>"





section \<open>Tokens, comments and rendered items\<close>

text \<open>
  Text without a comment opener: no \<open><!\<close> inside it, and no \<open><\<close> at its end that text
  appended later could complete.
\<close>

fun plain :: "string \<Rightarrow> bool" where
  "plain [] = True"
| "plain [c] = (c \<noteq> CHR ''<'')"
| "plain (c # d # r) = (\<not> (c = CHR ''<'' \<and> d = CHR ''!'') \<and> plain (d # r))"

text \<open>
  Text whose comments are all closed: scanning as \<open>stripComments\<close> does, every opener
  finds its closer, and no opener is left unfinished at the end.
\<close>

function clean :: "string \<Rightarrow> bool" where
  "clean [] = True"
| "clean (c # cs) =
     (case matchComment (c # cs) of
        Some after \<Rightarrow> clean after
      | None \<Rightarrow> \<not> prefix (c # cs) ''<!--'' \<and> \<not> prefix ''<!--'' (c # cs) \<and> clean cs)"
  by pat_completeness auto
termination
  by (relation "measure length") (auto dest: matchComment_shorter)

text \<open>
  A piece of a template that ends outside a token: scanning as \<open>replaceHtml\<close> does, no
  percent sign followed by word characters only is left at the end.
\<close>

function tokenClosed :: "string \<Rightarrow> bool" where
  "tokenClosed [] = True"
| "tokenClosed (c # cs) =
     (case matchToken (c # cs) of
        Some (key, after) \<Rightarrow> tokenClosed after
      | None \<Rightarrow> \<not> (c = CHR ''%'' \<and> cs \<noteq> [] \<and> list_all isWordChar cs) \<and> tokenClosed cs)"
  by pat_completeness auto
termination
  by (relation "measure length") (auto dest: matchToken_shorter)

text \<open>The keys of the tokens that \<open>replaceHtml\<close> finds in a template.\<close>

function keysOf :: "string \<Rightarrow> string list" where
  "keysOf [] = []"
| "keysOf (c # cs) =
     (case matchToken (c # cs) of
        Some (key, after) \<Rightarrow> key # keysOf after
      | None \<Rightarrow> keysOf cs)"
  by pat_completeness auto
termination
  by (relation "measure length") (auto dest: matchToken_shorter)

text \<open>
  The three templates, each cut at its slot: the item template at \<open>%submenu%\<close>, the two
  wrappers at \<open>%menuItems%\<close>; the slot is the only token of its name.
\<close>

definition templatesSplit ::
  "settings \<Rightarrow> string \<Rightarrow> string \<Rightarrow> string \<Rightarrow> string \<Rightarrow> string \<Rightarrow> string \<Rightarrow> bool" where
  "templatesSplit st A B C D E F =
     (menuItemTemplate st = A @ ''%submenu%'' @ B \<and>
      subMenuWrapTemplate st = C @ ''%menuItems%'' @ D \<and>
      menuWrapTemplate st = E @ ''%menuItems%'' @ F \<and>
      tokenClosed A \<and> tokenClosed C \<and> tokenClosed E \<and>
      ''submenu'' \<notin> set (keysOf A @ keysOf B) \<and>
      ''menuItems'' \<notin> set (keysOf C @ keysOf D @ keysOf E @ keysOf F))"

text \<open>
  The occurrences of a marker text, and text that does not end with a beginning of the
  marker (so that text appended to it completes no occurrence).
\<close>

fun occurrences :: "string \<Rightarrow> string \<Rightarrow> nat" where
  "occurrences m [] = 0"
| "occurrences m (c # cs) = (if prefix m (c # cs) then 1 else 0) + occurrences m cs"

fun sealed :: "string \<Rightarrow> string \<Rightarrow> bool" where
  "sealed m [] = True"
| "sealed m (c # cs) = (\<not> strict_prefix (c # cs) m \<and> sealed m cs)"

text \<open>
  The two rendered halves of a template around its slot: their comments are closed; what
  is left of them without the comments is plain, does not end with a beginning of the
  marker \<open>m\<close>, and holds the marker \<open>n\<close> times.
\<close>

definition goodPair :: "string \<Rightarrow> nat \<Rightarrow> string \<Rightarrow> string \<Rightarrow> bool" where
  "goodPair m n x y =
     (clean x \<and> clean y \<and> plain (stripComments x) \<and> plain (stripComments y) \<and>
      sealed m (stripComments x) \<and> sealed m (stripComments y) \<and>
      occurrences m (stripComments x) + occurrences m (stripComments y) = n)"

lemma children_size: "size_list size (children item) < size item"
  by (cases item) simp

text \<open>
  Every item that \<open>buildHtml\<close> renders gives a block with one marker, and every
  submenu wrapper it renders gives none. The walk is the one of \<open>buildHtml\<close>, with its markers.
\<close>

function blocksOk ::
  "settings \<Rightarrow> string \<Rightarrow> string \<Rightarrow> string \<Rightarrow> string \<Rightarrow> string \<Rightarrow> MenuItem list \<Rightarrow> MenuItem option
     \<Rightarrow> nat \<Rightarrow> bool" where
  "blocksOk st m A B C D [] parentItem level = True"
| "blocksOk st m A B C D (item # rest) parentItem level =
     (goodPair m 1 (replaceHtml A (getItemMarker st item parentItem level))
        (replaceHtml B (getItemMarker st item parentItem level)) \<and>
      (if hasSubpages item \<and> children item \<noteq> [] then
         goodPair m 0 (replaceHtml C (getItemMarker st item None (level + 1)))
           (replaceHtml D (getItemMarker st item None (level + 1))) \<and>
         blocksOk st m A B C D (children item) (Some item) (level + 1)
       else True) \<and>
      blocksOk st m A B C D rest parentItem level)"
  by pat_completeness auto
termination
  by (relation "measure (\<lambda>(st, m, A, B, C, D, items, p, l). size_list size items)")
    (auto simp: children_size less_Suc_eq trans_less_add1)

text \<open>The wrapper of one call of \<open>buildHtml\<close> carries no marker.\<close>

definition wrapOk ::
  "settings \<Rightarrow> string \<Rightarrow> string \<Rightarrow> string \<Rightarrow> string \<Rightarrow> string \<Rightarrow> MenuItem list \<Rightarrow> MenuItem option
     \<Rightarrow> nat \<Rightarrow> bool" where
  "wrapOk st m C D E F items parentItem level =
     (case parentItem of
        Some p \<Rightarrow>
          goodPair m 0 (replaceHtml C (getItemMarker st p None level))
            (replaceHtml D (getItemMarker st p None level))
      | None \<Rightarrow>
          (case items of
             [] \<Rightarrow> False
           | first # _ \<Rightarrow>
               goodPair m 0
                 (replaceHtml E [(''uid'', pid first), (''levelClass'', ''level-1'')])
                 (replaceHtml F [(''uid'', pid first), (''levelClass'', ''level-1'')])))"

text \<open>
  The items \<open>buildHtml\<close> reaches (it descends only where \<open>item.hasSubpages\<close> is truthy and
  \<open>item.children\<close> is not empty), and the items of the whole tree.
\<close>

function renderedItems :: "MenuItem list \<Rightarrow> nat" where
  "renderedItems [] = 0"
| "renderedItems (item # rest) =
     1 + (if hasSubpages item \<and> children item \<noteq> [] then renderedItems (children item) else 0)
       + renderedItems rest"
  by pat_completeness auto
termination
  by (relation "measure (size_list size)") (auto simp: children_size less_Suc_eq trans_less_add1)

function countItems :: "MenuItem list \<Rightarrow> nat" where
  "countItems [] = 0"
| "countItems (item # rest) = 1 + countItems (children item) + countItems rest"
  by pat_completeness auto
termination
  by (relation "measure (size_list size)") (auto simp: children_size less_Suc_eq trans_less_add1)

text \<open>A tree where every item with children has \<open>hasSubpages\<close> set.\<close>

function consistent :: "MenuItem list \<Rightarrow> bool" where
  "consistent [] = True"
| "consistent (item # rest) =
     ((children item = [] \<or> hasSubpages item) \<and> consistent (children item) \<and> consistent rest)"
  by pat_completeness auto
termination
  by (relation "measure (size_list size)") (auto simp: children_size less_Suc_eq trans_less_add1)

text \<open>
  Templates of a list menu whose item blocks begin with \<open><li class="item \<close>, the same
  with the slot of the outer wrapper inside a comment, and a tree whose first item has a
  child but no \<open>hasSubpages\<close>.
\<close>

definition listTemplates :: settings where
  "listTemplates = defaults\<lparr>
     menuWrapTemplate := ''<nav id=\"c%uid%\">%menuItems%</nav>'',
     menuItemTemplate :=
       ''<li class=\"item %activeClass%\">%ifHasChildrenStart%<i></i>%ifHasChildrenEnd%%title%%submenu%</li>'',
     subMenuWrapTemplate := ''<ul><li class=\"item-back\">%title%</li>%menuItems%</ul>''\<rparr>"

definition hiddenTemplates :: settings where
  "hiddenTemplates = listTemplates\<lparr>menuWrapTemplate := ''<nav><!--%menuItems%--></nav>''\<rparr>"

definition unflaggedItems :: "MenuItem list" where
  "unflaggedItems =
     [MenuItem False False False [] False ''1'' ''0'' ''One'' ''One'' ''/one'' []
        [MenuItem False False False [] False ''2'' ''1'' ''Two'' ''Two'' ''/two'' [] []]]"

text \<open>An item template with a conditional block inside a conditional block.\<close>

definition nestedTemplates :: settings where
  "nestedTemplates = defaults\<lparr>
     menuWrapTemplate := ''<nav>%menuItems%</nav>'',
     menuItemTemplate :=
       ''<li>%ifIsLinkedStart%A%ifHasChildrenStart%B%ifHasChildrenEnd%C%ifIsLinkedEnd%%title%</li>'',
     subMenuWrapTemplate := ''<ul>%menuItems%</ul>''\<rparr>"


section \<open>Templating: facts\<close>

lemma percent_not_word: "\<not> isWordChar CHR ''%''"
  by (simp add: isWordChar_def)

lemma matchToken_key:
  assumes "key \<noteq> []" and "list_all isWordChar key"
  shows "matchToken (CHR ''%'' # key @ CHR ''%'' # post) = Some (key, post)"
proof -
  from assms(2) have every: "\<forall>c\<in>set key. isWordChar c"
    by (simp add: list_all_iff)
  have tw: "takeWhile isWordChar (key @ CHR ''%'' # post) = key"
    using every percent_not_word by (simp add: takeWhile_append2)
  have dw: "dropWhile isWordChar (key @ CHR ''%'' # post) = CHR ''%'' # post"
    using every percent_not_word by (simp add: dropWhile_append2)
  show ?thesis
    using assms(1) by (simp add: matchToken_def tw dw)
qed

lemma matchToken_other: "c \<noteq> CHR ''%'' \<Longrightarrow> matchToken (c # cs) = None"
  by (simp add: matchToken_def)

lemma replaceHtml_literal:
  "CHR ''%'' \<notin> set pre \<Longrightarrow> replaceHtml (pre @ s) data = pre @ replaceHtml s data"
  by (induction pre) (auto simp: matchToken_other)

lemma replaceHtml_first_token:
  assumes "CHR ''%'' \<notin> set pre" "key \<noteq> []" "list_all isWordChar key"
  shows "replaceHtml (pre @ ''%'' @ key @ ''%'' @ post) data =
           pre @ ownValue data key @ replaceHtml post data"
  using assms by (simp add: replaceHtml_literal matchToken_key)

lemma afterCommentEnd_first:
  "\<not> sublist ''-->'' body \<Longrightarrow> afterCommentEnd (body @ ''-->'' @ post) = Some post"
proof (induction body)
  case Nil
  then show ?case by simp
next
  case (Cons c b)
  from Cons.prems have np: "\<not> prefix ''-->'' (c # b)" and ns: "\<not> sublist ''-->'' b"
    by (auto simp: sublist_Cons_right)
  have "take 3 (c # b @ ''-->'' @ post) \<noteq> ''-->''"
  proof (cases b)
    case Nil
    then show ?thesis by simp
  next
    case b1: (Cons d b')
    show ?thesis
    proof (cases b')
      case Nil
      with b1 show ?thesis by simp
    next
      case (Cons e b'')
      with b1 np show ?thesis by auto
    qed
  qed
  with Cons.IH[OF ns] show ?case by auto
qed

lemma matchComment_none:
  assumes "\<not> sublist ''<!--'' (c # pre)"
  shows "matchComment (c # pre @ ''<!--'' @ rest) = None"
proof -
  from assms have np: "\<not> prefix ''<!--'' (c # pre)"
    by (auto simp: sublist_Cons_right)
  have "take 4 (c # pre @ ''<!--'' @ rest) \<noteq> ''<!--''"
  proof (cases pre)
    case Nil
    then show ?thesis by simp
  next
    case p1: (Cons d q1)
    show ?thesis
    proof (cases q1)
      case Nil
      with p1 show ?thesis by simp
    next
      case p2: (Cons e q2)
      show ?thesis
      proof (cases q2)
        case Nil
        with p1 p2 show ?thesis by simp
      next
        case (Cons f q3)
        with p1 p2 np show ?thesis by auto
      qed
    qed
  qed
  then show ?thesis by (auto simp: matchComment_def)
qed

lemma stripComments_first_comment:
  assumes "\<not> sublist ''<!--'' pre" "\<not> sublist ''-->'' body"
  shows "stripComments (pre @ ''<!--'' @ body @ ''-->'' @ post) = pre @ stripComments post"
  using assms(1)
proof (induction pre)
  case Nil
  have "matchComment (''<!--'' @ body @ ''-->'' @ post) = Some post"
    using afterCommentEnd_first[OF assms(2)] by (simp add: matchComment_def)
  then show ?case by simp
next
  case (Cons c pre)
  from Cons.prems have ns: "\<not> sublist ''<!--'' pre"
    by (auto simp: sublist_Cons_right)
  from matchComment_none[OF Cons.prems] Cons.IH[OF ns] show ?case by simp
qed

text \<open>
  \<open>buildHtml\<close> throws only for an empty array without a parent item; the loop itself
  never throws.
\<close>

lemma buildHtml_unfold:
  assumes "forEachItem st items parentItem level [] = Inr h"
  shows "buildHtml st items parentItem level =
      (case parentItem of
         Some p \<Rightarrow>
           Inr (stripComments
                 (replaceHtml (subMenuWrapTemplate st)
                    (getItemMarker st p None level @ [(''menuItems'', h)])))
       | None \<Rightarrow>
           (case items of
              [] \<Rightarrow> Inl (TypeError ''items[0] is undefined'')
            | first # _ \<Rightarrow>
                Inr (stripComments
                      (replaceHtml (menuWrapTemplate st)
                         [(''uid'', pid first), (''menuItems'', h),
                          (''levelClass'', ''level-1'')]))))"
  by (subst buildHtml.simps) (simp only: assms sum.case)

lemma buildHtml_total:
  "(parentItem \<noteq> None \<or> items \<noteq> [] \<longrightarrow> (\<exists>h. buildHtml st items parentItem level = Inr h))"
  "\<exists>h. forEachItem st items parentItem level html = Inr h"
proof (induction st items parentItem level and st items parentItem level html
    rule: buildHtml_forEachItem.induct)
  case (1 st items parentItem level)
  then obtain h where h: "forEachItem st items parentItem level [] = Inr h" by blast
  show ?case
    by (auto simp: buildHtml_unfold[OF h] split: option.splits list.splits)
next
  case (2 st parentItem level html)
  show ?case by simp
next
  case (3 st item rest parentItem level html)
  show ?case
  proof (cases "hasSubpages item \<and> children item \<noteq> []")
    case True
    with "3.IH"(1) obtain sub
      where sub: "buildHtml st (children item) (Some item) (level + 1) = Inr sub"
      by auto
    from "3.IH"(2)[OF True sub] True sub show ?thesis by simp
  next
    case False
    with "3.IH"(3) show ?thesis by auto
  qed
qed

lemma buildHtml_nonempty: "items \<noteq> [] \<Longrightarrow> \<exists>h. buildHtml st items None level = Inr h"
  using buildHtml_total(1) by blast

section \<open>The controller: facts\<close>

lemma bindE_simps [simp]: "bindE (Inl e) f = Inl e" "bindE (Inr x) f = f x"
  by (simp_all add: bindE_def)

lemma bindE_eq_Inr: "bindE m f = Inr y \<longleftrightarrow> (\<exists>x. m = Inr x \<and> f x = Inr y)"
  by (cases m) simp_all

text \<open>Evaluation on a concrete page simplifies the bound value first.\<close>

lemma Let_weak_cong: "s = s' \<Longrightarrow> Let s f = Let s' f"
  by simp

lemma bindE_weak_cong: "m = m' \<Longrightarrow> bindE m f = bindE m' f"
  by simp

lemma length_forEachElem [simp]: "length (forEachElem idxs f es) = length es"
  by (simp add: forEachElem_def)

lemma nth_forEachElem:
  "i < length es \<Longrightarrow> forEachElem idxs f es ! i = (if i \<in> set idxs then f (es ! i) else es ! i)"
  by (simp add: forEachElem_def nth_enumerate_eq)

lemma classList_forEachElem:
  assumes "\<And>e. classList (f e) = classList e"
  shows "map classList (forEachElem idxs f es) = map classList es"
  by (rule nth_equalityI) (simp_all add: nth_forEachElem assms)

lemma quietStep_refl [simp]: "quietStep w w"
  by (simp add: quietStep_def)

lemma quietStep_trans: "quietStep w1 w2 \<Longrightarrow> quietStep w2 w3 \<Longrightarrow> quietStep w1 w3"
  by (auto simp: quietStep_def)

lemma quietStep_emit: "list_all quiet t \<Longrightarrow> quietStep w (emit t w)"
  by (simp add: quietStep_def emit_def)

lemma quiet_disableTabIndexOnAllCards:
  "disableTabIndexOnAllCards w = Inr w' \<Longrightarrow> quietStep w w'"
  by (auto simp: disableTabIndexOnAllCards_def quietStep_def emit_def Let_def list_all_iff
      classList_forEachElem split: option.splits)




lemma quiet_resizeCards: "quietStep w (resizeCards w)"
  by (auto simp: resizeCards_def quietStep_def emit_def Let_def list_all_iff)

lemma quiet_repositionCards: "repositionCards w = Inr w' \<Longrightarrow> quietStep w w'"
  by (auto simp: repositionCards_def quietStep_def emit_def Let_def list_all_iff
      split: option.splits if_splits)

lemma quiet_positionMenu: "positionMenu w = Inr w' \<Longrightarrow> quietStep w w'"
  by (auto simp: positionMenu_def quietStep_def emit_def split: option.splits)

lemma quiet_animateElement: "animateElement el a b w = Inr w' \<Longrightarrow> quietStep w w'"
  by (auto simp: animateElement_def quietStep_def emit_def split: option.splits)

lemma quiet_toggleNoScroll: "toggleNoScroll w = Inr w' \<Longrightarrow> quietStep w w'"
  by (auto simp: toggleNoScroll_def quietStep_def emit_def Let_def
      split: option.splits if_splits)

lemma quiet_bindEvents: "bindEvents w = Inr w' \<Longrightarrow> quietStep w w'"
  by (auto simp: bindEvents_def quietStep_def emit_def list_all_iff split: option.splits)

lemma elemClassAdd_frame:
  "settings (elemClassAdd i c w) = settings w"
  "menuClassList (elemClassAdd i c w) = menuClassList w"
  "toggleClassList (elemClassAdd i c w) = toggleClassList w"
  "toggleAriaExpanded (elemClassAdd i c w) = toggleAriaExpanded w"
  "trace (elemClassAdd i c w) = trace w @ [ClassAdd (Elem i) c]"
  "length (elems (elemClassAdd i c w)) = length (elems w)"
  by (simp_all add: elemClassAdd_def emit_def)

subsection \<open>Loading\<close>

lemma loadTemplates_total: "\<exists>w'. loadTemplates parseHtml w = Inr w'"
proof (cases "menuItemsJson (settings w) = []")
  case True
  then show ?thesis by (simp add: loadTemplates_def)
next
  case False
  define st where "st = (settings w)
      \<lparr>menuWrapTemplate := templateHtml ''menuWrap'' w,
       menuItemTemplate := templateHtml ''menuItem'' w,
       subMenuWrapTemplate := templateHtml ''subMenuWrap'' w\<rparr>"
  from False obtain h where "buildHtml st (menuItemsJson (settings w)) None 0 = Inr h"
    using buildHtml_nonempty by blast
  then show ?thesis
    by (simp add: loadTemplates_def Let_def st_def)
qed

lemma loadTemplates_frame:
  assumes "loadTemplates parseHtml w = Inr w1"
  shows "menuClassList w1 = menuClassList w \<and> toggleClassList w1 = toggleClassList w \<and>
         toggleAriaExpanded w1 = toggleAriaExpanded w \<and>
         isLoaded (settings w1) = isLoaded (settings w) \<and>
         (\<exists>t. trace w1 = trace w @ t \<and> list_all quiet t)"
  using assms
  by (auto simp: loadTemplates_def Let_def bindE_eq_Inr setInnerHTML_def emit_def
      split: if_splits)

text \<open>A first load that returns has cached the wrapper and marked the menu loaded.\<close>

lemma loadMenu_fresh:
  assumes nl: "\<not> isLoaded (settings w)" and lm: "loadMenu parseHtml w = Inr (b, w')"
    and some: "menuClassList w \<noteq> None"
  shows "b \<and> isLoaded (settings w') \<and> menuClassList w' = menuClassList w \<and>
         toggleClassList w' = toggleClassList w \<and> toggleAriaExpanded w' = toggleAriaExpanded w \<and>
         menuWrap (settings w') \<noteq> None \<and>
         (\<exists>t. trace w' = trace w @ t \<and> list_all quiet t)"
proof -
  obtain w1 where w1: "loadTemplates parseHtml w = Inr w1"
    using loadTemplates_total by blast
  note f1 = loadTemplates_frame[OF w1]
  from f1 obtain t1 where t1: "trace w1 = trace w @ t1" "list_all quiet t1" by blast
  from some obtain cl where cl: "menuClassList w = Some cl" by blast
  from lm nl cl f1 show ?thesis
    unfolding loadMenu_def
    by (auto simp: w1 t1 Let_def bindE_eq_Inr elemClassAdd_frame emit_def quietStep_def
        split: option.splits list.splits dest!: quiet_bindEvents)
qed

lemma loadMenu_error:
  assumes "loadMenu parseHtml w = Inl e"
  shows "e = TypeError ''$menuWrap is null''"
proof -
  obtain w1 where w1: "loadTemplates parseHtml w = Inr w1"
    using loadTemplates_total by blast
  note f1 = loadTemplates_frame[OF w1]
  from assms have nl: "\<not> isLoaded (settings w)" and some: "menuClassList w \<noteq> None"
    by (auto simp: loadMenu_def split: if_splits option.splits)
  from some obtain cl where cl: "menuClassList w = Some cl" by blast
  from assms nl cl f1 show ?thesis
    unfolding loadMenu_def
    by (auto simp: w1 Let_def bindEvents_def elemClassAdd_frame emit_def
        split: option.splits list.splits)
qed

lemma loadMenu_True_isLoaded:
  assumes "loadMenu parseHtml w = Inr (True, w')"
  shows "isLoaded (settings w')"
proof (cases "isLoaded (settings w)")
  case True
  with assms show ?thesis by (simp add: loadMenu_def)
next
  case False
  from assms False have "menuClassList w \<noteq> None"
    by (auto simp: loadMenu_def split: option.splits)
  from loadMenu_fresh[OF False assms this] show ?thesis by simp
qed

lemmas page_defs = demoPage_def loadedPage_def openedPage_def lazyPage_def noMenuPage_def
  defaults_def demoElems_def mkElem_def

text \<open>A pre-rendered menu (no items to build) loads when the wrapper is found.\<close>

lemma loadMenu_prerendered:
  assumes "\<not> isLoaded (settings w)" "menuClassList w = Some cl" "menuItemsJson (settings w) = []"
    "queryFirst (hasClass (menuWrapClass (settings w))) (elems w) = Some mw"
  shows "\<exists>w'. loadMenu parseHtml w = Inr (True, w')"
proof -
  have w1: "loadTemplates parseHtml w = Inr w"
    using assms(3) by (simp add: loadTemplates_def)
  show ?thesis
    using assms(1,2,4) unfolding loadMenu_def
    by (auto simp: w1 Let_def bindEvents_def elemClassAdd_frame elemClassAdd_def emit_def
        split: list.splits)
qed





lemma queryAll_bound: "i \<in> set (queryAll P es) \<Longrightarrow> i < length es"
  by (simp add: queryAll_def)



lemmas eval_defs = getItemMarker_def matchToken_def isWordChar_def ownValue_def matchComment_def
  showNat.simps digit_def

lemma emit_fields [simp]:
  "settings (emit t w) = settings w" "menuClassList (emit t w) = menuClassList w"
  "toggleClassList (emit t w) = toggleClassList w"
  "toggleAriaExpanded (emit t w) = toggleAriaExpanded w"
  "elems (emit t w) = elems w" "trace (emit t w) = trace w @ t"
  by (simp_all add: emit_def)

lemma dispatchEvent_fields [simp]:
  "settings (dispatchEvent n w) = settings w" "menuClassList (dispatchEvent n w) = menuClassList w"
  "toggleClassList (dispatchEvent n w) = toggleClassList w"
  "toggleAriaExpanded (dispatchEvent n w) = toggleAriaExpanded w"
  "elems (dispatchEvent n w) = elems w" "trace (dispatchEvent n w) = trace w @ [Dispatch n]"
  by (simp_all add: dispatchEvent_def)

lemma menuClassAdd_fields [simp]:
  "settings (menuClassAdd c w) = settings w"
  "menuClassList (menuClassAdd c w) = map_option (addToken c) (menuClassList w)"
  "toggleClassList (menuClassAdd c w) = toggleClassList w"
  "toggleAriaExpanded (menuClassAdd c w) = toggleAriaExpanded w"
  "elems (menuClassAdd c w) = elems w" "trace (menuClassAdd c w) = trace w @ [ClassAdd Menu c]"
  by (simp_all add: menuClassAdd_def)

lemma menuClassRemove_fields [simp]:
  "settings (menuClassRemove c w) = settings w"
  "menuClassList (menuClassRemove c w) = map_option (removeToken c) (menuClassList w)"
  "toggleClassList (menuClassRemove c w) = toggleClassList w"
  "toggleAriaExpanded (menuClassRemove c w) = toggleAriaExpanded w"
  "elems (menuClassRemove c w) = elems w"
  "trace (menuClassRemove c w) = trace w @ [ClassRemove Menu c]"
  by (simp_all add: menuClassRemove_def)

lemma toggleClassAdd_fields [simp]:
  "settings (toggleClassAdd c w) = settings w"
  "menuClassList (toggleClassAdd c w) = menuClassList w"
  "toggleClassList (toggleClassAdd c w) = addToken c (toggleClassList w)"
  "toggleAriaExpanded (toggleClassAdd c w) = toggleAriaExpanded w"
  "elems (toggleClassAdd c w) = elems w" "trace (toggleClassAdd c w) = trace w @ [ClassAdd Toggle c]"
  by (simp_all add: toggleClassAdd_def)

lemma toggleClassRemove_fields [simp]:
  "settings (toggleClassRemove c w) = settings w"
  "menuClassList (toggleClassRemove c w) = menuClassList w"
  "toggleClassList (toggleClassRemove c w) = removeToken c (toggleClassList w)"
  "toggleAriaExpanded (toggleClassRemove c w) = toggleAriaExpanded w"
  "elems (toggleClassRemove c w) = elems w"
  "trace (toggleClassRemove c w) = trace w @ [ClassRemove Toggle c]"
  by (simp_all add: toggleClassRemove_def)

lemma toggleSetAriaExpanded_fields [simp]:
  "settings (toggleSetAriaExpanded v w) = settings w"
  "menuClassList (toggleSetAriaExpanded v w) = menuClassList w"
  "toggleClassList (toggleSetAriaExpanded v w) = toggleClassList w"
  "toggleAriaExpanded (toggleSetAriaExpanded v w) = Some v"
  "elems (toggleSetAriaExpanded v w) = elems w"
  "trace (toggleSetAriaExpanded v w) = trace w @ [SetAttribute Toggle ''aria-expanded'' v]"
  by (simp_all add: toggleSetAriaExpanded_def)

lemma initialCard_cong: "settings w' = settings w \<Longrightarrow> initialCard w' = initialCard w"
  by (simp add: initialCard_def)

text \<open>The steps of a call of \<open>open\<close> that returns true.\<close>

lemma open_TrueE:
  assumes "open parseHtml w0 = Inr (True, w')"
  obtains w1 cl w2 w3 w4 w7 w8 w9 w10 where
    "loadMenu parseHtml w0 = Inr (True, w1)" "menuClassList w1 = Some cl"
    "openStatusClass (settings w1) \<notin> set cl" "animationOpenStatusClass (settings w1) \<notin> set cl"
    "toggleNoScroll (dispatchEvent ''madj2k-slidemenu-opening''
        (dispatchEvent ''madj2k-flyoutmenu-close'' w1)) = Inr w2"
    "disableTabIndexOnAllCards w2 = Inr w3" "positionMenu w3 = Inr w4"
    "w7 = toggleSetAriaExpanded ''true''
            (toggleClassAdd (animationOpenStatusClass (settings w4))
              (toggleClassAdd (openStatusClass (settings w4))
                (menuClassAdd (animationOpenStatusClass (settings w4))
                  (menuClassAdd (openStatusClass (settings w4)) w4))))"
    "setOpenCard (initialCard w7) w7 = Inr w8"
    "repositionCards (resizeCards w8) = Inr w9"
    "animateElement (menuWrap (settings w9)) (None, Some ''-100%'') (None, Some ''0'') w9 = Inr w10"
    "w' = emit [SetTimeout OpenDone (animationDuration (settings w10))] w10"
  using assms unfolding open_def
  by (auto simp: bindE_eq_Inr Let_def split: if_splits option.splits intro!: that)

lemma addToken_mem [simp]: "x \<in> set (addToken c cl) \<longleftrightarrow> x = c \<or> x \<in> set cl"
  by (auto simp: addToken_def)

lemma removeToken_mem [simp]: "x \<in> set (removeToken c cl) \<longleftrightarrow> x \<noteq> c \<and> x \<in> set cl"
  by (auto simp: removeToken_def)




lemma setOpenCard_None: "setOpenCard None w = Inl (TypeError ''card is undefined'')"
  by (simp add: setOpenCard_def Let_def)

lemma setOpenCard_settings:
  "setOpenCard c w = Inr w' \<Longrightarrow> settings w' = (settings w)\<lparr>openCard := c\<rparr> \<and> c \<noteq> None"
  by (auto simp: setOpenCard_def Let_def elemClassAdd_def emit_def split: option.splits)


lemma quiet_not:
  assumes "list_all quiet t"
  shows "Dispatch n \<notin> set t" "ClassAdd Menu c \<notin> set t" "ClassRemove Menu c \<notin> set t"
    "SetTimeout OpenDone d \<notin> set t" "SetTimeout CloseDone d \<notin> set t"
  using assms by (auto simp: list_all_iff)

lemma quietStep_traceE:
  assumes "quietStep w w'"
  obtains t where "trace w' = trace w @ t" "list_all quiet t"
  using assms by (auto simp: quietStep_def)



text \<open>The whole of a call of \<open>open\<close> that returns true.\<close>

lemma open_True_summary:
  assumes o: "open parseHtml w = Inr (True, w')"
  shows "\<exists>w1 crd cl pre mid rest.
           loadMenu parseHtml w = Inr (True, w1) \<and>
           initialCard w1 = Some crd \<and>
           settings w' = (settings w1)\<lparr>openCard := Some crd\<rparr> \<and>
           menuClassList w = Some cl \<and>
           openStatusClass (settings w1) \<notin> set cl \<and>
           animationOpenStatusClass (settings w1) \<notin> set cl \<and>
           menuClassList w' =
             Some (addToken (animationOpenStatusClass (settings w1))
                     (addToken (openStatusClass (settings w1)) cl)) \<and>
           toggleAriaExpanded w' = Some ''true'' \<and>
           trace w' = trace w @ pre
             @ [Dispatch ''madj2k-flyoutmenu-close'', Dispatch ''madj2k-slidemenu-opening'']
             @ mid
             @ [ClassAdd Menu (openStatusClass (settings w1)),
                ClassAdd Menu (animationOpenStatusClass (settings w1))]
             @ rest
             @ [SetTimeout OpenDone (animationDuration (settings w1))] \<and>
           list_all quiet pre \<and> list_all quiet mid \<and> list_all quiet rest"
proof -
  from o obtain w1 cl w2 w3 w4 w7 w8 w9 w10 where s:
    "loadMenu parseHtml w = Inr (True, w1)" "menuClassList w1 = Some cl"
    "openStatusClass (settings w1) \<notin> set cl" "animationOpenStatusClass (settings w1) \<notin> set cl"
    "toggleNoScroll (dispatchEvent ''madj2k-slidemenu-opening''
        (dispatchEvent ''madj2k-flyoutmenu-close'' w1)) = Inr w2"
    "disableTabIndexOnAllCards w2 = Inr w3" "positionMenu w3 = Inr w4"
    "w7 = toggleSetAriaExpanded ''true''
            (toggleClassAdd (animationOpenStatusClass (settings w4))
              (toggleClassAdd (openStatusClass (settings w4))
                (menuClassAdd (animationOpenStatusClass (settings w4))
                  (menuClassAdd (openStatusClass (settings w4)) w4))))"
    "setOpenCard (initialCard w7) w7 = Inr w8"
    "repositionCards (resizeCards w8) = Inr w9"
    "animateElement (menuWrap (settings w9)) (None, Some ''-100%'') (None, Some ''0'') w9 = Inr w10"
    "w' = emit [SetTimeout OpenDone (animationDuration (settings w10))] w10"
    by (rule open_TrueE)
  have l: "menuClassList w1 = menuClassList w \<and> (\<exists>t. trace w1 = trace w @ t \<and> list_all quiet t)"
  proof (cases "isLoaded (settings w)")
    case True
    with s(1) show ?thesis by (simp add: loadMenu_def)
  next
    case False
    from s(1) False have "menuClassList w \<noteq> None"
      by (auto simp: loadMenu_def split: option.splits)
    from loadMenu_fresh[OF False s(1) this] show ?thesis by simp
  qed
  then obtain pre where pre: "trace w1 = trace w @ pre" "list_all quiet pre" by blast
  have q24: "quietStep (dispatchEvent ''madj2k-slidemenu-opening''
        (dispatchEvent ''madj2k-flyoutmenu-close'' w1)) w4"
    using quiet_toggleNoScroll[OF s(5)] quiet_disableTabIndexOnAllCards[OF s(6)]
      quiet_positionMenu[OF s(7)]
    by (blast intro: quietStep_trans)
  then obtain mid where mid: "trace w4 = trace w1
      @ [Dispatch ''madj2k-flyoutmenu-close'', Dispatch ''madj2k-slidemenu-opening''] @ mid"
      "list_all quiet mid"
    by (auto elim!: quietStep_traceE)
  from q24 have f4: "settings w4 = settings w1" "menuClassList w4 = menuClassList w1"
    by (simp_all add: quietStep_def)
  from s(9) obtain crd where crd: "initialCard w7 = Some crd"
    using setOpenCard_settings by blast
  have i7: "initialCard w7 = initialCard w1"
    by (simp add: initialCard_def s(8) f4)
  from s(9) crd have f8: "settings w8 = (settings w1)\<lparr>openCard := Some crd\<rparr>"
      "menuClassList w8 = menuClassList w7" "toggleAriaExpanded w8 = toggleAriaExpanded w7"
      "\<exists>t. trace w8 = trace w7 @ t \<and> list_all quiet t"
    by (auto simp: setOpenCard_def Let_def elemClassAdd_def emit_def list_all_iff s(8) f4)
  then obtain t8 where t8: "trace w8 = trace w7 @ t8" "list_all quiet t8" by blast
  have q810: "quietStep w8 w10"
    using quiet_resizeCards[of w8] quiet_repositionCards[OF s(10)] quiet_animateElement[OF s(11)]
    by (blast intro: quietStep_trans)
  then obtain t10 where t10: "trace w10 = trace w8 @ t10" "list_all quiet t10"
    by (auto elim!: quietStep_traceE)
  from q810 have f10: "settings w10 = settings w8" "menuClassList w10 = menuClassList w8"
    "toggleAriaExpanded w10 = toggleAriaExpanded w8"
    by (simp_all add: quietStep_def)
  define rest where "rest = [ClassAdd Toggle (openStatusClass (settings w1)),
      ClassAdd Toggle (animationOpenStatusClass (settings w1)),
      SetAttribute Toggle ''aria-expanded'' ''true''] @ t8 @ t10"
  have qr: "list_all quiet rest"
    using t8(2) t10(2) by (simp add: rest_def)
  have tr: "trace w' = trace w @ pre
             @ [Dispatch ''madj2k-flyoutmenu-close'', Dispatch ''madj2k-slidemenu-opening'']
             @ mid
             @ [ClassAdd Menu (openStatusClass (settings w1)),
                ClassAdd Menu (animationOpenStatusClass (settings w1))]
             @ rest
             @ [SetTimeout OpenDone (animationDuration (settings w1))]"
    by (simp add: s(12) t10 t8 s(8) mid pre f4 f10 f8 rest_def)
  have m: "menuClassList w' =
             Some (addToken (animationOpenStatusClass (settings w1))
                     (addToken (openStatusClass (settings w1)) cl))"
    by (simp add: s(12) f10 f8 s(8) f4 s(2))
  have a: "toggleAriaExpanded w' = Some ''true''"
    by (simp add: s(12) f10 f8 s(8))
  have st: "settings w' = (settings w1)\<lparr>openCard := Some crd\<rparr>"
    by (simp add: s(12) f10 f8)
  from s(1) crd i7 st l s(2,3,4) m a tr pre(2) mid(2) qr show ?thesis
    by (intro exI[of _ w1] exI[of _ crd] exI[of _ cl] exI[of _ pre] exI[of _ mid] exI[of _ rest])
       simp
qed

subsection \<open>When the steps return\<close>

lemma toggleNoScroll_lock:
  assumes "scrollHelper (settings w) \<longrightarrow>
             helperPresent w \<and> innerPresent w \<and> innerHeight w < scrollHeight w \<and>
             openStatusBodyClass (settings w) \<notin> set (bodyClassList w) \<and>
             openStatusBodyClassOverflow (settings w) \<noteq> []"
  shows "\<exists>w'. toggleNoScroll w = Inr w'"
  using assms by (auto simp: toggleNoScroll_def Let_def)

lemma disableTabIndexOnAllCards_total:
  "menuClassList w \<noteq> None \<Longrightarrow> \<exists>w'. disableTabIndexOnAllCards w = Inr w'"
  by (auto simp: disableTabIndexOnAllCards_def Let_def)

lemma positionMenu_total: "menuClassList w \<noteq> None \<Longrightarrow> \<exists>w'. positionMenu w = Inr w'"
  by (auto simp: positionMenu_def)

lemma repositionCards_total:
  "openCard (settings w) \<noteq> None \<Longrightarrow> \<exists>w'. repositionCards w = Inr w'"
  by (auto simp: repositionCards_def Let_def)

lemma animateElement_total: "el \<noteq> None \<Longrightarrow> \<exists>w'. animateElement el a b w = Inr w'"
  by (auto simp: animateElement_def)

lemma setOpenCard_total: "\<exists>w'. setOpenCard (Some c) w = Inr w'"
  by (simp add: setOpenCard_def Let_def)

lemma dispatchEvent_page [simp]:
  "helperPresent (dispatchEvent n w) = helperPresent w"
  "innerPresent (dispatchEvent n w) = innerPresent w"
  "bodyClassList (dispatchEvent n w) = bodyClassList w"
  "scrollHeight (dispatchEvent n w) = scrollHeight w"
  "innerHeight (dispatchEvent n w) = innerHeight w"
  by (simp_all add: dispatchEvent_def emit_def)

lemma initialCard_total: "activeCards (settings w) \<noteq> [] \<Longrightarrow> \<exists>c. initialCard w = Some c"
  by (cases "activeCards (settings w)") (auto simp: initialCard_def Let_def)

text \<open>
  On a loaded, closed menu with an active card and a wrapper, on a page that the scroll
  lock accepts, \<open>open\<close> returns true.
\<close>

lemma open_succeeds:
  assumes ld: "isLoaded (settings w)" and m: "menuClassList w = Some cl"
    and g: "openStatusClass (settings w) \<notin> set cl" "animationOpenStatusClass (settings w) \<notin> set cl"
    and ns: "scrollHelper (settings w) \<longrightarrow>
             helperPresent w \<and> innerPresent w \<and> innerHeight w < scrollHeight w \<and>
             openStatusBodyClass (settings w) \<notin> set (bodyClassList w) \<and>
             openStatusBodyClassOverflow (settings w) \<noteq> []"
    and ac: "activeCards (settings w) \<noteq> []" and mw: "menuWrap (settings w) \<noteq> None"
  shows "\<exists>w'. open parseHtml w = Inr (True, w')"
proof -
  let ?d = "dispatchEvent ''madj2k-slidemenu-opening'' (dispatchEvent ''madj2k-flyoutmenu-close'' w)"
  have "\<exists>w2. toggleNoScroll ?d = Inr w2"
    by (rule toggleNoScroll_lock) (use ns in simp)
  then obtain w2 where w2: "toggleNoScroll ?d = Inr w2" by blast
  note q2 = quiet_toggleNoScroll[OF w2]
  have "menuClassList w2 \<noteq> None" using q2 m by (simp add: quietStep_def)
  then obtain w3 where w3: "disableTabIndexOnAllCards w2 = Inr w3"
    using disableTabIndexOnAllCards_total by blast
  note q3 = quietStep_trans[OF q2 quiet_disableTabIndexOnAllCards[OF w3]]
  have "menuClassList w3 \<noteq> None" using q3 m by (simp add: quietStep_def)
  then obtain w4 where w4: "positionMenu w3 = Inr w4"
    using positionMenu_total by blast
  note q4 = quietStep_trans[OF q3 quiet_positionMenu[OF w4]]
  then have s4: "settings w4 = settings w" by (simp add: quietStep_def)
  define w7 where "w7 = toggleSetAriaExpanded ''true''
            (toggleClassAdd (animationOpenStatusClass (settings w))
              (toggleClassAdd (openStatusClass (settings w))
                (menuClassAdd (animationOpenStatusClass (settings w))
                  (menuClassAdd (openStatusClass (settings w)) w4))))"
  have s7: "settings w7 = settings w" by (simp add: w7_def s4)
  have "initialCard w7 = initialCard w" by (simp add: initialCard_def s7)
  with ac obtain crd where crd: "initialCard w7 = Some crd"
    using initialCard_total[of w] by auto
  obtain w8 where w8: "setOpenCard (Some crd) w7 = Inr w8"
    using setOpenCard_total by blast
  from setOpenCard_settings[OF w8] have s8: "settings w8 = (settings w)\<lparr>openCard := Some crd\<rparr>"
    by (simp add: s7)
  have "openCard (settings (resizeCards w8)) \<noteq> None"
    using quiet_resizeCards[of w8] s8 by (simp add: quietStep_def)
  then obtain w9 where w9: "repositionCards (resizeCards w8) = Inr w9"
    using repositionCards_total by blast
  have "settings w9 = settings w8"
    using quiet_resizeCards[of w8] quiet_repositionCards[OF w9] by (simp add: quietStep_def)
  with s8 mw have "menuWrap (settings w9) \<noteq> None" by simp
  then obtain w10 where w10:
    "animateElement (menuWrap (settings w9)) (None, Some ''-100%'') (None, Some ''0'') w9 = Inr w10"
    using animateElement_total by blast
  have l: "loadMenu parseHtml w = Inr (True, w)" using ld by (simp add: loadMenu_def)
  show ?thesis
    unfolding open_def
    using g crd
    by (simp add: l m w2 w3 w4 Let_def w7_def[symmetric] s4 w8 w9 w10)
qed

lemma loadedPage_opens: "\<exists>w'. open demoParse loadedPage = Inr (True, w')"
  by (rule open_succeeds[where cl = "[''slide-nav'']"]) (simp_all add: page_defs)








subsection \<open>When the card operations return\<close>











subsection \<open>Tokens, comments and rendered items\<close>

text \<open>Plain text.\<close>

lemma plain_Cons: "plain (c # s) \<Longrightarrow> plain s"
  by (cases s) simp_all

lemma plain_append: "plain s \<Longrightarrow> plain t \<Longrightarrow> plain (s @ t)"
proof (induction s rule: plain.induct)
  case 1
  then show ?case by simp
next
  case (2 c)
  then show ?case by (cases t) simp_all
next
  case (3 c d r)
  then show ?case by simp
qed

lemma plain_no_comment: "plain (c # s) \<Longrightarrow> matchComment (c # s @ x) = None"
proof (cases s)
  case Nil
  assume "plain (c # s)"
  with Nil show ?thesis by (auto simp: matchComment_def)
next
  case (Cons d r)
  assume "plain (c # s)"
  with Cons show ?thesis by (auto simp: matchComment_def)
qed

lemma plain_strip: "plain s \<Longrightarrow> stripComments (s @ x) = s @ stripComments x"
proof (induction s)
  case Nil
  then show ?case by simp
next
  case (Cons c s)
  from plain_no_comment[OF Cons.prems] Cons.IH[OF plain_Cons[OF Cons.prems]]
  show ?case by simp
qed

lemma plain_strip_id: "plain s \<Longrightarrow> stripComments s = s"
  using plain_strip[of s "[]"] by simp

text \<open>Text whose comments are closed.\<close>

lemma take_eq_length: "take n xs = ys \<Longrightarrow> length ys = n \<Longrightarrow> n \<le> length xs"
  by auto

lemma afterCommentEnd_length: "afterCommentEnd s = Some r \<Longrightarrow> 3 \<le> length s"
proof (induction s)
  case Nil
  then show ?case by simp
next
  case (Cons c s)
  show ?case
  proof (cases "take 3 (c # s) = ''-->''")
    case True
    then show ?thesis by (rule take_eq_length) simp
  next
    case False
    with Cons.prems have "afterCommentEnd s = Some r"
      by (simp only: afterCommentEnd.simps if_False)
    from Cons.IH[OF this] show ?thesis by simp
  qed
qed

lemma afterCommentEnd_append:
  "afterCommentEnd s = Some r \<Longrightarrow> afterCommentEnd (s @ x) = Some (r @ x)"
proof (induction s)
  case Nil
  then show ?case by simp
next
  case (Cons c s)
  from afterCommentEnd_length[OF Cons.prems] have l: "3 \<le> length (c # s)" .
  then have t: "take 3 (c # s @ x) = take 3 (c # s)" by simp
  have u: "afterCommentEnd ((c # s) @ x) =
             (if take 3 (c # s) = ''-->'' then Some (drop 2 (s @ x)) else afterCommentEnd (s @ x))"
    by (simp only: append_Cons afterCommentEnd.simps t)
  show ?case
  proof (cases "take 3 (c # s) = ''-->''")
    case True
    with Cons.prems have r: "r = drop 2 s"
      by (simp only: afterCommentEnd.simps refl if_True option.inject)
    from l have "drop 2 (s @ x) = drop 2 s @ x" by simp
    with u True r show ?thesis by (simp only: refl if_True)
  next
    case False
    with Cons.prems have "afterCommentEnd s = Some r"
      by (simp only: afterCommentEnd.simps if_False)
    from Cons.IH[OF this] u False show ?thesis by (simp only: if_False)
  qed
qed

lemma matchComment_append:
  "matchComment s = Some r \<Longrightarrow> matchComment (s @ x) = Some (r @ x)"
proof -
  assume a: "matchComment s = Some r"
  then have t: "take 4 s = ''<!--''" and e: "afterCommentEnd (drop 4 s) = Some r"
    by (auto simp: matchComment_def split: if_splits)
  from t have "length (take 4 s) = 4" by simp
  then have l: "length s \<ge> 4" by simp
  then have "take 4 (s @ x) = take 4 s" "drop 4 (s @ x) = drop 4 s @ x" by simp_all
  with t afterCommentEnd_append[OF e] show ?thesis by (simp add: matchComment_def)
qed

lemma matchComment_none_append:
  assumes "matchComment (c # cs) = None" "\<not> prefix (c # cs) ''<!--''"
    "\<not> prefix ''<!--'' (c # cs)"
  shows "matchComment ((c # cs) @ x) = None"
proof -
  have "take 4 ((c # cs) @ x) \<noteq> ''<!--''"
  proof
    assume a: "take 4 ((c # cs) @ x) = ''<!--''"
    show False
    proof (cases "length (c # cs) \<ge> 4")
      case True
      with a have "take 4 (c # cs) = ''<!--''" by simp
      then have "prefix ''<!--'' (c # cs)" by (metis take_is_prefix)
      with assms(3) show False by simp
    next
      case False
      then have "take 4 ((c # cs) @ x) = (c # cs) @ take (4 - length (c # cs)) x" by simp
      with a have "prefix (c # cs) ''<!--''" by (metis prefixI)
      with assms(2) show False by simp
    qed
  qed
  then show ?thesis unfolding matchComment_def by (simp only: if_False)
qed

lemma clean_strip: "clean s \<Longrightarrow> stripComments (s @ x) = stripComments s @ stripComments x"
proof (induction s rule: clean.induct)
  case 1
  then show ?case by simp
next
  case (2 c cs)
  show ?case
  proof (cases "matchComment (c # cs)")
    case None
    with "2.prems" have p: "\<not> prefix (c # cs) ''<!--''" "\<not> prefix ''<!--'' (c # cs)" "clean cs"
      by simp_all
    from matchComment_none_append[OF None p(1,2)] "2.IH"(1)[OF None p(3)] None
    show ?thesis by simp
  next
    case (Some after)
    with "2.prems" have "clean after" by simp
    from "2.IH"(2)[OF Some this] matchComment_append[OF Some, of x] Some
    show ?thesis by simp
  qed
qed

text \<open>Splitting a template at a token.\<close>

lemma matchToken_Some_append:
  assumes "matchToken s = Some (key, after)"
  shows "matchToken (s @ x) = Some (key, after @ x)"
proof -
  from assms obtain cs where s: "s = CHR ''%'' # cs"
    by (cases s) (auto simp: matchToken_def split: if_splits)
  from assms s have k: "takeWhile isWordChar cs = key" "key \<noteq> []"
    and d: "dropWhile isWordChar cs = CHR ''%'' # after"
    by (auto simp: matchToken_def Let_def split: if_splits list.splits)
  from d have "CHR ''%'' \<in> set cs"
    by (metis list.set_intros(1) set_dropWhileD)
  then have m: "\<exists>y\<in>set cs. \<not> isWordChar y"
    using percent_not_word by blast
  then obtain y where y: "y \<in> set cs" "\<not> isWordChar y" by blast
  have tw: "takeWhile isWordChar (cs @ x) = takeWhile isWordChar cs"
    using y by (rule takeWhile_append1)
  have dw: "dropWhile isWordChar (cs @ x) = dropWhile isWordChar cs @ x"
    using y by (rule dropWhile_append1)
  show ?thesis
    using k d by (simp add: matchToken_def s tw dw)
qed

lemma matchToken_None_append:
  assumes "matchToken (c # cs) = None"
    "\<not> (c = CHR ''%'' \<and> cs \<noteq> [] \<and> list_all isWordChar cs)"
  shows "matchToken ((c # cs) @ CHR ''%'' # r) = None"
proof (cases "c = CHR ''%''")
  case False
  then show ?thesis by (simp add: matchToken_def)
next
  case True
  show ?thesis
  proof (cases "cs = []")
    case e: True
    with True show ?thesis by (simp add: matchToken_def percent_not_word)
  next
    case False
    with assms(2) True have "\<not> list_all isWordChar cs" by simp
    then obtain y where y: "y \<in> set cs" "\<not> isWordChar y"
      by (auto simp: list_all_iff)
    have tw: "takeWhile isWordChar (cs @ CHR ''%'' # r) = takeWhile isWordChar cs"
      using y by (rule takeWhile_append1)
    have dw: "dropWhile isWordChar (cs @ CHR ''%'' # r) = dropWhile isWordChar cs @ CHR ''%'' # r"
      using y by (rule dropWhile_append1)
    from y have ne: "dropWhile isWordChar cs \<noteq> []"
      by (metis dropWhile_eq_Nil_conv)
    from assms(1) True ne show ?thesis
      by (auto simp: matchToken_def tw dw Let_def split: if_splits list.splits)
  qed
qed

lemma replaceHtml_split:
  "tokenClosed A \<Longrightarrow>
     replaceHtml (A @ CHR ''%'' # r) data = replaceHtml A data @ replaceHtml (CHR ''%'' # r) data"
proof (induction A rule: tokenClosed.induct)
  case 1
  then show ?case by simp
next
  case (2 c cs)
  show ?case
  proof (cases "matchToken (c # cs)")
    case None
    with "2.prems" have p: "\<not> (c = CHR ''%'' \<and> cs \<noteq> [] \<and> list_all isWordChar cs)"
      "tokenClosed cs" by simp_all
    from matchToken_None_append[OF None p(1), of r] "2.IH"(1)[OF None p(2)] None
    show ?thesis by simp
  next
    case (Some ka)
    obtain key after where ka: "ka = (key, after)" by (cases ka)
    with Some "2.prems" have "tokenClosed after" by simp
    from "2.IH"(2)[OF Some ka[symmetric] this] matchToken_Some_append[OF Some[unfolded ka], of "CHR ''%'' # r"]
      Some ka
    show ?thesis by simp
  qed
qed

lemma replaceHtml_at_token:
  assumes "tokenClosed A" "key \<noteq> []" "list_all isWordChar key"
  shows "replaceHtml (A @ ''%'' @ key @ ''%'' @ B) data =
           replaceHtml A data @ ownValue data key @ replaceHtml B data"
proof -
  have "replaceHtml (A @ CHR ''%'' # key @ CHR ''%'' # B) data =
          replaceHtml A data @ replaceHtml (CHR ''%'' # key @ CHR ''%'' # B) data"
    using assms(1) by (rule replaceHtml_split)
  then show ?thesis
    using matchToken_key[OF assms(2,3), of B] by simp
qed

lemma replaceHtml_same_keys:
  "(\<forall>k\<in>set (keysOf t). ownValue d k = ownValue d' k) \<Longrightarrow> replaceHtml t d = replaceHtml t d'"
proof (induction t rule: keysOf.induct)
  case 1
  then show ?case by simp
next
  case (2 c cs)
  show ?case
  proof (cases "matchToken (c # cs)")
    case None
    with "2.prems" "2.IH"(1)[OF None] show ?thesis by simp
  next
    case (Some ka)
    obtain key after where ka: "ka = (key, after)" by (cases ka)
    from "2.prems" Some ka have "ownValue d key = ownValue d' key"
      "\<forall>k\<in>set (keysOf after). ownValue d k = ownValue d' k" by simp_all
    with "2.IH"(2)[OF Some ka[symmetric]] Some ka show ?thesis by simp
  qed
qed

lemma plain_clean: "plain s \<Longrightarrow> clean s"
proof (induction s)
  case Nil
  then show ?case by simp
next
  case (Cons c s)
  from plain_no_comment[OF Cons.prems, of "[]"] have n: "matchComment (c # s) = None" by simp
  have p1: "\<not> prefix (c # s) ''<!--''"
  proof
    assume "prefix (c # s) ''<!--''"
    then have c: "c = CHR ''<''" and s: "prefix s ''!--''" by simp_all
    show False
    proof (cases s)
      case Nil
      with Cons.prems c show False by simp
    next
      case (Cons d r)
      with s have "d = CHR ''!''" by simp
      with Cons.prems c Cons show False by simp
    qed
  qed
  have p2: "\<not> prefix ''<!--'' (c # s)"
  proof
    assume "prefix ''<!--'' (c # s)"
    then have c: "c = CHR ''<''" and s: "prefix ''!--'' s" by simp_all
    then obtain r where "s = CHR ''!'' # r" by (cases s) simp_all
    with Cons.prems c show False by simp
  qed
  from n p1 p2 Cons.IH[OF plain_Cons[OF Cons.prems]] show ?case by simp
qed

lemma clean_append: "clean s \<Longrightarrow> clean t \<Longrightarrow> clean (s @ t)"
proof (induction s rule: clean.induct)
  case 1
  then show ?case by simp
next
  case (2 c cs)
  show ?case
  proof (cases "matchComment (c # cs)")
    case None
    with "2.prems" have p: "\<not> prefix (c # cs) ''<!--''" "\<not> prefix ''<!--'' (c # cs)" "clean cs"
      by simp_all
    from matchComment_none_append[OF None p(1,2), of t] have n: "matchComment (c # cs @ t) = None"
      by simp
    have q1: "\<not> prefix (c # cs @ t) ''<!--''"
      using p(1) by (metis append_Cons append_prefixD)
    have q2: "\<not> prefix ''<!--'' (c # cs @ t)"
    proof
      assume a: "prefix ''<!--'' (c # cs @ t)"
      then have "prefix ''<!--'' ((c # cs) @ t)" by simp
      then have "prefix ''<!--'' (c # cs) \<or> prefix (c # cs) ''<!--''"
        by (metis prefix_append prefix_def prefix_order.order_refl prefix_same_cases prefixI)
      with p show False by blast
    qed
    from n q1 q2 "2.IH"(1)[OF None p(3) "2.prems"(2)] show ?thesis by simp
  next
    case (Some after)
    with "2.prems" have "clean after" by simp
    from "2.IH"(2)[OF Some this "2.prems"(2)] matchComment_append[OF Some, of t]
    show ?thesis by simp
  qed
qed

lemma ownValue_append_other:
  "k \<noteq> key \<Longrightarrow> ownValue (d @ [(key, v)]) k = ownValue d k"
  by (simp add: ownValue_def map_add_def split: option.splits)

lemma ownValue_append_new:
  "map_of d key = None \<Longrightarrow> ownValue (d @ [(key, v)]) key = v"
  by (simp add: ownValue_def map_add_def)

lemma replaceHtml_slot:
  assumes "tokenClosed X" "key \<noteq> []" "list_all isWordChar key"
    "key \<notin> set (keysOf X)" "key \<notin> set (keysOf Y)"
    "\<And>k. k \<noteq> key \<Longrightarrow> ownValue d' k = ownValue d k"
  shows "replaceHtml (X @ ''%'' @ key @ ''%'' @ Y) d' =
           replaceHtml X d @ ownValue d' key @ replaceHtml Y d"
proof -
  have x: "replaceHtml X d' = replaceHtml X d"
  proof (rule replaceHtml_same_keys, rule ballI)
    fix k
    assume "k \<in> set (keysOf X)"
    with assms(4) have "k \<noteq> key" by blast
    then show "ownValue d' k = ownValue d k" by (rule assms(6))
  qed
  have y: "replaceHtml Y d' = replaceHtml Y d"
  proof (rule replaceHtml_same_keys, rule ballI)
    fix k
    assume "k \<in> set (keysOf Y)"
    with assms(5) have "k \<noteq> key" by blast
    then show "ownValue d' k = ownValue d k" by (rule assms(6))
  qed
  from replaceHtml_at_token[OF assms(1-3), of Y d'] x y show ?thesis by simp
qed

lemma marker_no_submenu: "map_of (getItemMarker st item p l) ''submenu'' = None"
  by (simp add: getItemMarker_def)

lemma marker_no_menuItems: "map_of (getItemMarker st item p l) ''menuItems'' = None"
  by (simp add: getItemMarker_def)

text \<open>Counting a marker text.\<close>

lemma sealed_prefix:
  assumes "sealed m (c # s)"
  shows "prefix m (c # s @ y) = prefix m (c # s)"
proof
  assume "prefix m (c # s)"
  then show "prefix m (c # s @ y)"
    by (metis append_Cons prefix_prefix)
next
  assume p: "prefix m (c # s @ y)"
  show "prefix m (c # s)"
  proof (rule ccontr)
    assume n: "\<not> prefix m (c # s)"
    from p have "prefix m ((c # s) @ y)" by simp
    then have "prefix m (c # s) \<or> (\<exists>us. m = (c # s) @ us \<and> prefix us y)"
      by (simp only: prefix_append)
    with n obtain us where u: "m = (c # s) @ us" by blast
    with n have "us \<noteq> []" by auto
    with u have "strict_prefix (c # s) m" by (auto simp: strict_prefix_def)
    with assms show False by simp
  qed
qed

lemma occurrences_append:
  "sealed m x \<Longrightarrow> occurrences m (x @ y) = occurrences m x + occurrences m y"
proof (induction x)
  case Nil
  then show ?case by simp
next
  case (Cons c x)
  from Cons.prems have "sealed m x" by simp
  from Cons.IH[OF this] sealed_prefix[OF Cons.prems, of y]
  show ?case by simp
qed

lemma sealed_append: "sealed m x \<Longrightarrow> sealed m h \<Longrightarrow> sealed m (x @ h)"
proof (induction x)
  case Nil
  then show ?case by simp
next
  case (Cons c x)
  have "\<not> strict_prefix ((c # x) @ h) m"
  proof
    assume s: "strict_prefix ((c # x) @ h) m"
    then have p: "prefix (c # x) m"
      by (metis append_prefixD strict_prefix_def)
    have "c # x \<noteq> m"
    proof
      assume e: "c # x = m"
      with s have "prefix (m @ h) m" by (simp add: strict_prefix_def)
      then have "h = []" by (metis prefix_order.antisym prefixI self_append_conv)
      with e s show False by (simp add: strict_prefix_def)
    qed
    with p have "strict_prefix (c # x) m" by (simp add: strict_prefix_def)
    with Cons.prems(1) show False by simp
  qed
  moreover from Cons have "sealed m (x @ h)" by simp
  ultimately show ?case by simp
qed

lemma sealed_Nil: "sealed m []"
  by simp

lemma wrap_piece:
  assumes "goodPair m n x y" "clean h" "plain (stripComments h)" "sealed m (stripComments h)"
  shows "clean (x @ h @ y)"
    and "stripComments (x @ h @ y) = stripComments x @ stripComments h @ stripComments y"
    and "plain (stripComments (x @ h @ y))"
    and "sealed m (stripComments (x @ h @ y))"
    and "occurrences m (stripComments (x @ h @ y)) = n + occurrences m (stripComments h)"
proof -
  from assms(1) have g: "clean x" "clean y" "plain (stripComments x)" "plain (stripComments y)"
    "sealed m (stripComments x)" "sealed m (stripComments y)"
    "occurrences m (stripComments x) + occurrences m (stripComments y) = n"
    by (simp_all add: goodPair_def)
  show "clean (x @ h @ y)"
    using g(1,2) assms(2) by (intro clean_append)
  show s: "stripComments (x @ h @ y) = stripComments x @ stripComments h @ stripComments y"
    using clean_strip[OF g(1), of "h @ y"] clean_strip[OF assms(2), of y] by simp
  show "plain (stripComments (x @ h @ y))"
    unfolding s using g(3,4) assms(3) by (intro plain_append)
  show "sealed m (stripComments (x @ h @ y))"
    unfolding s using g(5,6) assms(4) by (intro sealed_append)
  have "sealed m (stripComments h)" by (rule assms(4))
  then show "occurrences m (stripComments (x @ h @ y)) = n + occurrences m (stripComments h)"
    unfolding s using g(5,7) by (simp add: occurrences_append)
qed

lemma item_html:
  assumes "templatesSplit st A B C D E F"
  shows "replaceHtml (menuItemTemplate st) (getItemMarker st item p l @ [(''submenu'', sub)]) =
           replaceHtml A (getItemMarker st item p l) @ sub @
           replaceHtml B (getItemMarker st item p l)"
    and "replaceHtml (menuItemTemplate st) (getItemMarker st item p l) =
           replaceHtml A (getItemMarker st item p l) @ replaceHtml B (getItemMarker st item p l)"
proof -
  from assms have t: "menuItemTemplate st = A @ ''%'' @ ''submenu'' @ ''%'' @ B"
    and c: "tokenClosed A" and k: "''submenu'' \<notin> set (keysOf A)" "''submenu'' \<notin> set (keysOf B)"
    by (simp_all add: templatesSplit_def)
  have w: "''submenu'' \<noteq> []" "list_all isWordChar ''submenu''"
    by (simp_all add: isWordChar_def)
  let ?m = "getItemMarker st item p l"
  from replaceHtml_slot[OF c w k, of "?m @ [(''submenu'', sub)]" ?m]
    ownValue_append_other[of _ "''submenu''" ?m sub]
    ownValue_append_new[OF marker_no_submenu, of st item p l sub]
  show "replaceHtml (menuItemTemplate st) (?m @ [(''submenu'', sub)]) =
          replaceHtml A ?m @ sub @ replaceHtml B ?m"
    unfolding t by simp
  have "ownValue ?m ''submenu'' = []"
    by (simp add: ownValue_def marker_no_submenu)
  with replaceHtml_slot[OF c w k, of ?m ?m]
  show "replaceHtml (menuItemTemplate st) ?m = replaceHtml A ?m @ replaceHtml B ?m"
    unfolding t by simp
qed

lemma subwrap_html:
  assumes "templatesSplit st A B C D E F"
  shows "replaceHtml (subMenuWrapTemplate st) (getItemMarker st p None l @ [(''menuItems'', h)]) =
           replaceHtml C (getItemMarker st p None l) @ h @
           replaceHtml D (getItemMarker st p None l)"
proof -
  from assms have t: "subMenuWrapTemplate st = C @ ''%'' @ ''menuItems'' @ ''%'' @ D"
    and c: "tokenClosed C" and k: "''menuItems'' \<notin> set (keysOf C)" "''menuItems'' \<notin> set (keysOf D)"
    by (simp_all add: templatesSplit_def)
  have w: "''menuItems'' \<noteq> []" "list_all isWordChar ''menuItems''"
    by (simp_all add: isWordChar_def)
  let ?m = "getItemMarker st p None l"
  from replaceHtml_slot[OF c w k, of "?m @ [(''menuItems'', h)]" ?m]
    ownValue_append_other[of _ "''menuItems''" ?m h]
    ownValue_append_new[OF marker_no_menuItems, of st p None l h]
  show ?thesis unfolding t by simp
qed

lemma wrap_html:
  assumes "templatesSplit st A B C D E F"
  shows "replaceHtml (menuWrapTemplate st)
           [(''uid'', u), (''menuItems'', h), (''levelClass'', ''level-1'')] =
         replaceHtml E [(''uid'', u), (''levelClass'', ''level-1'')] @ h @
         replaceHtml F [(''uid'', u), (''levelClass'', ''level-1'')]"
proof -
  from assms have t: "menuWrapTemplate st = E @ ''%'' @ ''menuItems'' @ ''%'' @ F"
    and c: "tokenClosed E" and k: "''menuItems'' \<notin> set (keysOf E)" "''menuItems'' \<notin> set (keysOf F)"
    by (simp_all add: templatesSplit_def)
  have w: "''menuItems'' \<noteq> []" "list_all isWordChar ''menuItems''"
    by (simp_all add: isWordChar_def)
  have o: "\<And>k. k \<noteq> ''menuItems'' \<Longrightarrow>
      ownValue [(''uid'', u), (''menuItems'', h), (''levelClass'', ''level-1'')] k =
      ownValue [(''uid'', u), (''levelClass'', ''level-1'')] k"
    by (simp add: ownValue_def)
  have v: "ownValue [(''uid'', u), (''menuItems'', h), (''levelClass'', ''level-1'')] ''menuItems'' = h"
    by (simp add: ownValue_def)
  from replaceHtml_slot[OF c w k o] v show ?thesis unfolding t by simp
qed

lemma consistent_rendered: "consistent items \<Longrightarrow> renderedItems items = countItems items"
  by (induction items rule: countItems.induct) auto

text \<open>
  What \<open>buildHtml\<close> returns holds the marker once for every item it reaches; the loop
  appends one block per item to the markup collected so far.
\<close>

lemma build_count:
  "templatesSplit st A B C D E F \<Longrightarrow> blocksOk st m A B C D items parentItem level \<Longrightarrow>
     wrapOk st m C D E F items parentItem level \<Longrightarrow>
     \<exists>out. buildHtml st items parentItem level = Inr out \<and> plain out \<and> sealed m out \<and>
           occurrences m out = renderedItems items"
  "templatesSplit st A B C D E F \<Longrightarrow> blocksOk st m A B C D items parentItem level \<Longrightarrow>
     \<exists>h. forEachItem st items parentItem level html = Inr (html @ h) \<and> clean h \<and>
          plain (stripComments h) \<and> sealed m (stripComments h) \<and>
          occurrences m (stripComments h) = renderedItems items"
proof (induction st items parentItem level and st items parentItem level html
    rule: buildHtml_forEachItem.induct)
  case (1 st items parentItem level)
  from "1.IH"[OF "1.prems"(1,2)] obtain h
    where h: "forEachItem st items parentItem level [] = Inr h" "clean h"
      "plain (stripComments h)" "sealed m (stripComments h)"
      "occurrences m (stripComments h) = renderedItems items"
    by auto
  show ?case
  proof (cases parentItem)
    case (Some p)
    with "1.prems"(3) have g: "goodPair m 0 (replaceHtml C (getItemMarker st p None level))
        (replaceHtml D (getItemMarker st p None level))"
      by (simp add: wrapOk_def)
    have "buildHtml st items parentItem level =
        Inr (stripComments (replaceHtml C (getItemMarker st p None level) @ h @
               replaceHtml D (getItemMarker st p None level)))"
      unfolding buildHtml_unfold[OF h(1)] by (simp add: Some subwrap_html[OF "1.prems"(1)])
    with wrap_piece(3,4,5)[OF g h(2,3,4)] h(5) show ?thesis by simp
  next
    case None
    with "1.prems"(3) obtain first rest where i: "items = first # rest"
      and g: "goodPair m 0 (replaceHtml E [(''uid'', pid first), (''levelClass'', ''level-1'')])
        (replaceHtml F [(''uid'', pid first), (''levelClass'', ''level-1'')])"
      by (auto simp: wrapOk_def split: list.splits)
    have "buildHtml st items parentItem level =
        Inr (stripComments (replaceHtml E [(''uid'', pid first), (''levelClass'', ''level-1'')] @ h @
               replaceHtml F [(''uid'', pid first), (''levelClass'', ''level-1'')]))"
      unfolding buildHtml_unfold[OF h(1)] by (simp add: None i wrap_html[OF "1.prems"(1)])
    with wrap_piece(3,4,5)[OF g h(2,3,4)] h(5) show ?thesis by simp
  qed
next
  case (2 st parentItem level html)
  show ?case by (simp add: sealed_Nil)
next
  case (3 st item rest parentItem level html)
  let ?m = "getItemMarker st item parentItem level"
  from "3.prems"(2) have g: "goodPair m 1 (replaceHtml A ?m) (replaceHtml B ?m)"
    and r: "blocksOk st m A B C D rest parentItem level"
    by simp_all
  show ?case
  proof (cases "hasSubpages item \<and> children item \<noteq> []")
    case True
    with "3.prems"(2) have
      w: "wrapOk st m C D E F (children item) (Some item) (level + 1)"
      and b: "blocksOk st m A B C D (children item) (Some item) (level + 1)"
      by (simp_all add: wrapOk_def)
    from "3.IH"(1)[OF True "3.prems"(1) b w] obtain sub
      where sub: "buildHtml st (children item) (Some item) (level + 1) = Inr sub" "plain sub"
        "sealed m sub" "occurrences m sub = renderedItems (children item)"
      by auto
    let ?i = "replaceHtml A ?m @ sub @ replaceHtml B ?m"
    have s: "stripComments sub = sub" using sub(2) by (rule plain_strip_id)
    from "3.IH"(2)[OF True sub(1) "3.prems"(1) r] item_html(1)[OF "3.prems"(1)] obtain h
      where h: "forEachItem st rest parentItem level (html @ ?i) = Inr ((html @ ?i) @ h)"
        "clean h" "plain (stripComments h)" "sealed m (stripComments h)"
        "occurrences m (stripComments h) = renderedItems rest"
      by auto
    have p: "clean sub" "plain (stripComments sub)" "sealed m (stripComments sub)"
      using sub(2,3) s by (simp_all add: plain_clean)
    note i = wrap_piece[OF g p]
    have f: "forEachItem st (item # rest) parentItem level html = Inr (html @ ?i @ h)"
      using True sub(1) h(1) item_html(1)[OF "3.prems"(1)] by simp
    have c1: "clean (?i @ h)" using i(1) h(2) by (rule clean_append)
    have c2: "stripComments (?i @ h) = stripComments ?i @ stripComments h"
      using i(1) by (rule clean_strip)
    have c3: "plain (stripComments (?i @ h))"
      unfolding c2 using i(3) h(3) by (rule plain_append)
    have c4: "sealed m (stripComments (?i @ h))"
      unfolding c2 using i(4) h(4) by (rule sealed_append)
    have c5: "occurrences m (stripComments (?i @ h)) = renderedItems (item # rest)"
      unfolding c2 using i(4,5) h(5) sub(4) s True by (simp add: occurrences_append)
    from f c1 c3 c4 c5 show ?thesis by blast
  next
    case False
    let ?i = "replaceHtml A ?m @ [] @ replaceHtml B ?m"
    from "3.IH"(3)[OF False "3.prems"(1) r] item_html(2)[OF "3.prems"(1)] obtain h
      where h: "forEachItem st rest parentItem level (html @ ?i) = Inr ((html @ ?i) @ h)"
        "clean h" "plain (stripComments h)" "sealed m (stripComments h)"
        "occurrences m (stripComments h) = renderedItems rest"
      by auto
    have p: "clean []" "plain (stripComments [])" "sealed m (stripComments [])"
      by (simp_all add: sealed_Nil)
    note i = wrap_piece[OF g p]
    have f: "forEachItem st (item # rest) parentItem level html = Inr (html @ ?i @ h)"
      using False h(1) item_html(2)[OF "3.prems"(1)] by auto
    have c1: "clean (?i @ h)" using i(1) h(2) by (rule clean_append)
    have c2: "stripComments (?i @ h) = stripComments ?i @ stripComments h"
      using i(1) by (rule clean_strip)
    have c3: "plain (stripComments (?i @ h))"
      unfolding c2 using i(3) h(3) by (rule plain_append)
    have c4: "sealed m (stripComments (?i @ h))"
      unfolding c2 using i(4) h(4) by (rule sealed_append)
    have c5: "occurrences m (stripComments (?i @ h)) = renderedItems (item # rest)"
      unfolding c2 using i(4,5) h(5) False by (auto simp: occurrences_append)
    from f c1 c3 c4 c5 show ?thesis by blast
  qed
qed

lemma matchToken_SomeD:
  assumes "matchToken s = Some (key, after)"
  shows "s = ''%'' @ key @ ''%'' @ after" "key \<noteq> []" "list_all isWordChar key"
proof -
  from assms obtain cs where s: "s = CHR ''%'' # cs"
    by (cases s) (auto simp: matchToken_def split: if_splits)
  from assms s have k: "takeWhile isWordChar cs = key" "key \<noteq> []"
    and d: "dropWhile isWordChar cs = CHR ''%'' # after"
    by (auto simp: matchToken_def Let_def split: if_splits list.splits)
  from k(1) d have "cs = key @ CHR ''%'' # after"
    by (metis takeWhile_dropWhile_id)
  with s show "s = ''%'' @ key @ ''%'' @ after" by simp
  show "key \<noteq> []" by (rule k(2))
  from k(1) show "list_all isWordChar key"
    by (metis list_all_iff set_takeWhileD)
qed

lemma replaceHtml_no_keys: "keysOf s = [] \<Longrightarrow> replaceHtml s data = s"
proof (induction s rule: keysOf.induct)
  case 1
  then show ?case by simp
next
  case (2 c cs)
  show ?case
  proof (cases "matchToken (c # cs)")
    case None
    with "2.prems" "2.IH"(1)[OF None] show ?thesis by simp
  next
    case (Some ka)
    with "2.prems" show ?thesis by (cases ka) simp
  qed
qed

lemma first_token:
  "keysOf s = [] \<or>
   (\<exists>before key rest. s = before @ ''%'' @ key @ ''%'' @ rest \<and> tokenClosed before \<and>
      keysOf before = [] \<and> key \<noteq> [] \<and> list_all isWordChar key)"
proof (induction s rule: keysOf.induct)
  case 1
  then show ?case by simp
next
  case (2 c cs)
  show ?case
  proof (cases "matchToken (c # cs)")
    case (Some ka)
    obtain key after where ka: "ka = (key, after)" by (cases ka)
    from matchToken_SomeD[OF Some[unfolded ka]]
    have "c # cs = [] @ ''%'' @ key @ ''%'' @ after \<and> tokenClosed [] \<and> keysOf [] = [] \<and>
        key \<noteq> [] \<and> list_all isWordChar key"
      by simp
    then show ?thesis by blast
  next
    case None
    from "2.IH"(1)[OF None] show ?thesis
    proof
      assume "keysOf cs = []"
      with None show ?thesis by simp
    next
      assume "\<exists>before key rest. cs = before @ ''%'' @ key @ ''%'' @ rest \<and> tokenClosed before \<and>
          keysOf before = [] \<and> key \<noteq> [] \<and> list_all isWordChar key"
      then obtain b key rest where b: "cs = b @ ''%'' @ key @ ''%'' @ rest" "tokenClosed b"
        "keysOf b = []" "key \<noteq> []" "list_all isWordChar key"
        by blast
      have n: "matchToken (c # b) = None"
      proof (cases "matchToken (c # b)")
        case None
        then show ?thesis .
      next
        case (Some ka)
        obtain k a where "ka = (k, a)" by (cases ka)
        with matchToken_Some_append[of "c # b" k a "''%'' @ key @ ''%'' @ rest"] Some None b(1)
        show ?thesis by simp
      qed
      have d: "\<not> (c = CHR ''%'' \<and> b \<noteq> [] \<and> list_all isWordChar b)"
      proof
        assume a: "c = CHR ''%'' \<and> b \<noteq> [] \<and> list_all isWordChar b"
        with matchToken_key[of b "key @ ''%'' @ rest"] b(1) None show False by simp
      qed
      from n d b(2,3) have "tokenClosed (c # b)" "keysOf (c # b) = []" by simp_all
      with b(1,4,5) have "c # cs = (c # b) @ ''%'' @ key @ ''%'' @ rest \<and> tokenClosed (c # b) \<and>
          keysOf (c # b) = [] \<and> key \<noteq> [] \<and> list_all isWordChar key"
        by simp
      then show ?thesis by blast
    qed
  qed
qed

lemma stripComments_comment:
  assumes "clean before" "\<not> sublist ''-->'' body"
  shows "stripComments (before @ ''<!--'' @ body @ ''-->'' @ post) =
           stripComments before @ stripComments post"
proof -
  have "stripComments (''<!--'' @ body @ ''-->'' @ post) = stripComments post"
    using stripComments_first_comment[of "[]" body post] assms(2) by simp
  with clean_strip[OF assms(1), of "''<!--'' @ body @ ''-->'' @ post"] show ?thesis by simp
qed

lemma listTemplates_split:
  "templatesSplit listTemplates
     ''<li class=\"item %activeClass%\">%ifHasChildrenStart%<i></i>%ifHasChildrenEnd%%title%''
     ''</li>'' ''<ul><li class=\"item-back\">%title%</li>'' ''</ul>'' ''<nav id=\"c%uid%\">''
     ''</nav>''"
  by (simp add: templatesSplit_def listTemplates_def defaults_def matchToken_def isWordChar_def)

lemma demo_blocks:
  "blocksOk listTemplates ''<li class=\"item ''
     ''<li class=\"item %activeClass%\">%ifHasChildrenStart%<i></i>%ifHasChildrenEnd%%title%''
     ''</li>'' ''<ul><li class=\"item-back\">%title%</li>'' ''</ul>'' demoItems None 0"
  by (simp add: listTemplates_def defaults_def demoItems_def goodPair_def eval_defs)

lemma demo_wrap:
  "wrapOk listTemplates ''<li class=\"item '' ''<ul><li class=\"item-back\">%title%</li>''
     ''</ul>'' ''<nav id=\"c%uid%\">'' ''</nav>'' demoItems None 0"
  by (simp add: wrapOk_def demoItems_def goodPair_def eval_defs)

lemma demo_consistent: "consistent demoItems" "countItems demoItems = 3"
  by (simp_all add: demoItems_def)

lemma unflagged_blocks:
  "blocksOk listTemplates ''<li class=\"item ''
     ''<li class=\"item %activeClass%\">%ifHasChildrenStart%<i></i>%ifHasChildrenEnd%%title%''
     ''</li>'' ''<ul><li class=\"item-back\">%title%</li>'' ''</ul>'' unflaggedItems None 0"
  by (simp add: listTemplates_def defaults_def unflaggedItems_def goodPair_def eval_defs)

lemma unflagged_wrap:
  "wrapOk listTemplates ''<li class=\"item '' ''<ul><li class=\"item-back\">%title%</li>''
     ''</ul>'' ''<nav id=\"c%uid%\">'' ''</nav>'' unflaggedItems None 0"
  by (simp add: wrapOk_def unflaggedItems_def goodPair_def eval_defs)

lemma unflagged_out:
  "buildHtml listTemplates unflaggedItems None 0 =
     Inr ''<nav id=\"c0\"><li class=\"item \">One</li></nav>''"
proof -
  have f: "forEachItem listTemplates unflaggedItems None 0 [] =
      Inr ''<li class=\"item \"><!--<i></i>-->One</li>''"
    by (simp add: listTemplates_def defaults_def unflaggedItems_def eval_defs)
  show ?thesis
    by (subst buildHtml_unfold[OF f])
      (simp add: listTemplates_def defaults_def unflaggedItems_def eval_defs)
qed

lemma unflagged_counts:
  "\<not> consistent unflaggedItems" "countItems unflaggedItems = 2"
  "occurrences ''<li class=\"item '' ''<nav id=\"c0\"><li class=\"item \">One</li></nav>'' = 1"
  by (simp_all add: unflaggedItems_def)

lemma hidden_out:
  "buildHtml hiddenTemplates [hd (tl demoItems)] None 0 = Inr ''<nav>Second Item</li>--></nav>''"
proof -
  have f: "forEachItem hiddenTemplates [hd (tl demoItems)] None 0 [] =
      Inr ''<li class=\"item \"><!--<i></i>-->Second Item</li>''"
    by (simp add: hiddenTemplates_def listTemplates_def defaults_def demoItems_def eval_defs)
  show ?thesis
    by (subst buildHtml_unfold[OF f])
      (simp add: hiddenTemplates_def listTemplates_def defaults_def demoItems_def eval_defs)
qed

lemma hidden_counts:
  "consistent [hd (tl demoItems)]" "countItems [hd (tl demoItems)] = 1"
  "occurrences ''<li class=\"item '' ''<nav>Second Item</li>--></nav>'' = 0"
  by (simp_all add: demoItems_def)


section \<open>Claims\<close>

text \<open>
  C8. \<open>loadMenu\<close> is idempotent: in a state where \<open>isLoaded\<close> is set it returns true and
  leaves the whole page state as it was (no markup rebuilt, no class added, no listener
  bound: the trace is unchanged); and a call that returns true leaves \<open>isLoaded\<close> set,
  so that every further call is such a call.
\<close>

theorem loadMenu_idempotent:
  "(isLoaded (settings w) \<longrightarrow> loadMenu parseHtml w = Inr (True, w)) \<and>
   (loadMenu parseHtml w = Inr (True, w') \<longrightarrow>
      isLoaded (settings w') \<and> loadMenu parseHtml w' = Inr (True, w'))"
proof (intro conjI impI)
  assume "isLoaded (settings w)"
  then show "loadMenu parseHtml w = Inr (True, w)" by (simp add: loadMenu_def)
next
  assume a: "loadMenu parseHtml w = Inr (True, w')"
  then show "isLoaded (settings w')" by (rule loadMenu_True_isLoaded)
  then show "loadMenu parseHtml w' = Inr (True, w')" by (simp add: loadMenu_def)
qed

theorem loadMenu_idempotent_witness:
  "\<not> isLoaded (settings demoPage) \<and>
   (\<exists>w'. loadMenu demoParse demoPage = Inr (True, w') \<and> isLoaded (settings w') \<and>
         loadMenu demoParse w' = Inr (True, w')) \<and>
   isLoaded (settings loadedPage) \<and> loadMenu demoParse loadedPage = Inr (True, loadedPage)"
proof -
  have q: "queryFirst (hasClass (menuWrapClass (settings demoPage))) (elems demoPage) = Some 0"
    by (simp add: page_defs queryFirst_def queryAll_def hasClass_def)
  have "\<exists>w'. loadMenu demoParse demoPage = Inr (True, w')"
    by (rule loadMenu_prerendered[OF _ _ _ q]) (simp_all add: page_defs)
  then obtain w' where w': "loadMenu demoParse demoPage = Inr (True, w')" by blast
  have l: "isLoaded (settings loadedPage)" by (simp add: page_defs)
  from loadMenu_idempotent[of demoPage demoParse w'] w'
    loadMenu_idempotent[of loadedPage demoParse loadedPage] l
  show ?thesis by (auto simp: page_defs)
qed


text \<open>
  C9. \<open>buildHtml\<close> with an empty array and no parent item throws, reading
  \<open>items[0].data\<close>; with a non-empty array it returns; and \<open>loadMenu\<close>, which calls it
  only for a non-empty \<open>menuItemsJson\<close>, never ends in that exception.
\<close>

theorem buildHtml_empty_unreachable:
  "buildHtml st [] None level = Inl (TypeError ''items[0] is undefined'') \<and>
   (items \<noteq> [] \<longrightarrow> (\<exists>html. buildHtml st items None level = Inr html)) \<and>
   loadMenu parseHtml w \<noteq> Inl (TypeError ''items[0] is undefined'')"
proof (intro conjI impI)
  show "buildHtml st [] None level = Inl (TypeError ''items[0] is undefined'')"
    by (simp add: buildHtml.simps)
  show "\<exists>html. buildHtml st items None level = Inr html" if "items \<noteq> []"
    using that by (rule buildHtml_nonempty)
  show "loadMenu parseHtml w \<noteq> Inl (TypeError ''items[0] is undefined'')"
    using loadMenu_error[of parseHtml w] by auto
qed

theorem buildHtml_empty_unreachable_witness:
  "demoItems \<noteq> [] \<and>
   buildHtml defaults [] None 0 = Inl (TypeError ''items[0] is undefined'') \<and>
   (\<exists>html. buildHtml defaults demoItems None 0 = Inr html) \<and>
   loadMenu demoParse (demoPage\<lparr>settings := defaults\<lparr>menuItemsJson := demoItems\<rparr>\<rparr>)
     \<noteq> Inl (TypeError ''items[0] is undefined'')"
proof -
  have ne: "demoItems \<noteq> []" by (simp add: demoItems_def)
  from buildHtml_empty_unreachable[of defaults 0 demoItems demoParse
      "demoPage\<lparr>settings := defaults\<lparr>menuItemsJson := demoItems\<rparr>\<rparr>"] ne
  show ?thesis by simp
qed




text \<open>
  C3. Without a container, \<open>loadMenu\<close> warns on the console and returns false, and so
  does \<open>open\<close>; \<open>close\<close> reads \<open>classList\<close> of \<open>null\<close> and throws.
\<close>

theorem close_without_menu:
  "menuClassList w = None \<and> \<not> isLoaded (settings w) \<longrightarrow>
     loadMenu parseHtml w =
       Inr (False, emit [Warn ''Menu container not found. Can not load menu.''] w) \<and>
     open parseHtml w =
       Inr (False, emit [Warn ''Menu container not found. Can not load menu.''] w) \<and>
     close w = Inl (TypeError ''$menu is null'')"
  by (simp add: loadMenu_def close_def open_def)

theorem close_without_menu_witness:
  "menuClassList noMenuPage = None \<and> \<not> isLoaded (settings noMenuPage) \<and>
   loadMenu demoParse noMenuPage =
     Inr (False, emit [Warn ''Menu container not found. Can not load menu.''] noMenuPage) \<and>
   close noMenuPage = Inl (TypeError ''$menu is null'')"
proof -
  have a: "menuClassList noMenuPage = None" "\<not> isLoaded (settings noMenuPage)"
    by (simp_all add: page_defs)
  from close_without_menu[of noMenuPage demoParse] a show ?thesis by blast
qed

text \<open>
  C7, amended. The tokens of a template are what the scan of \<open>replaceHtml\<close> finds from
  left to right: a token \<open>%key%\<close> that follows text whose own scan ends outside a token is
  replaced by the marker's own property of that name, or by the empty string when the
  marker has none, and the text before and behind it is substituted on its own; text
  without a token is kept as it is; and every template either has no token or is cut by
  its first token in this way. What \<open>buildHtml\<close> returns is the substituted wrapper
  template with the comments stripped, and stripping removes a block from the comment
  opener to the first closer after it.
\<close>

theorem placeholders_and_comments:
  "(tokenClosed before \<and> key \<noteq> [] \<and> list_all isWordChar key \<longrightarrow>
      replaceHtml (before @ ''%'' @ key @ ''%'' @ rest) data =
        replaceHtml before data @ (case map_of data key of Some v \<Rightarrow> v | None \<Rightarrow> [])
          @ replaceHtml rest data) \<and>
   (keysOf lit = [] \<longrightarrow> replaceHtml lit data = lit) \<and>
   (keysOf s = [] \<or>
      (\<exists>before key rest. s = before @ ''%'' @ key @ ''%'' @ rest \<and> tokenClosed before \<and>
         keysOf before = [] \<and> key \<noteq> [] \<and> list_all isWordChar key)) \<and>
   (buildHtml st items parentItem level = Inr out \<longrightarrow>
      (\<exists>html. forEachItem st items parentItem level [] = Inr html \<and>
         out = stripComments
                 (case parentItem of
                    Some p \<Rightarrow>
                      replaceHtml (subMenuWrapTemplate st)
                        (getItemMarker st p None level @ [(''menuItems'', html)])
                  | None \<Rightarrow>
                      replaceHtml (menuWrapTemplate st)
                        [(''uid'', pid (hd items)), (''menuItems'', html),
                         (''levelClass'', ''level-1'')]))) \<and>
   (clean pre \<and> \<not> sublist ''-->'' body \<longrightarrow>
      stripComments (pre @ ''<!--'' @ body @ ''-->'' @ post) =
        stripComments pre @ stripComments post)"
proof (intro conjI impI)
  assume "tokenClosed before \<and> key \<noteq> [] \<and> list_all isWordChar key"
  then show "replaceHtml (before @ ''%'' @ key @ ''%'' @ rest) data =
        replaceHtml before data @ (case map_of data key of Some v \<Rightarrow> v | None \<Rightarrow> [])
          @ replaceHtml rest data"
    using replaceHtml_at_token[of before key rest data] by (simp add: ownValue_def)
next
  assume "keysOf lit = []"
  then show "replaceHtml lit data = lit" by (rule replaceHtml_no_keys)
next
  show "keysOf s = [] \<or>
      (\<exists>before key rest. s = before @ ''%'' @ key @ ''%'' @ rest \<and> tokenClosed before \<and>
         keysOf before = [] \<and> key \<noteq> [] \<and> list_all isWordChar key)"
    by (rule first_token)
next
  assume b: "buildHtml st items parentItem level = Inr out"
  obtain h where h: "forEachItem st items parentItem level [] = Inr h"
    using buildHtml_total(2) by blast
  from b show "\<exists>html. forEachItem st items parentItem level [] = Inr html \<and>
         out = stripComments
                 (case parentItem of
                    Some p \<Rightarrow>
                      replaceHtml (subMenuWrapTemplate st)
                        (getItemMarker st p None level @ [(''menuItems'', html)])
                  | None \<Rightarrow>
                      replaceHtml (menuWrapTemplate st)
                        [(''uid'', pid (hd items)), (''menuItems'', html),
                         (''levelClass'', ''level-1'')])"
    by (auto simp: buildHtml_unfold[OF h] h split: option.splits list.splits)
next
  assume "clean pre \<and> \<not> sublist ''-->'' body"
  then show "stripComments (pre @ ''<!--'' @ body @ ''-->'' @ post) =
        stripComments pre @ stripComments post"
    using stripComments_comment by blast
qed

theorem placeholders_and_comments_witness:
  "tokenClosed ''<li style=\"width:100%\">'' \<and> ''title'' \<noteq> [] \<and> list_all isWordChar ''title'' \<and>
   keysOf ''<li style=\"width:100%\">'' = [] \<and>
   replaceHtml ''<li style=\"width:100%\">%title%%nope%</li>'' [(''title'', ''Home'')] =
     ''<li style=\"width:100%\">Home</li>'' \<and>
   forEachItem demoTemplates [hd (tl demoItems)] None 0 [] = Inr ''<li><!--<b>-->Second Item</li>'' \<and>
   buildHtml demoTemplates [hd (tl demoItems)] None 0 = Inr ''<nav id=\"c1\"><li>Second Item</li></nav>'' \<and>
   clean ''<li><!--a-->'' \<and> \<not> sublist ''-->'' ''<b>'' \<and>
   stripComments ''<li><!--a--><!--<b>-->Second Item</li>'' = ''<li>Second Item</li>''"
proof -
  have a: "tokenClosed ''<li style=\"width:100%\">''" "''title'' \<noteq> []"
    "list_all isWordChar ''title''" "keysOf ''<li style=\"width:100%\">'' = []"
    "tokenClosed []" "''nope'' \<noteq> []" "list_all isWordChar ''nope''" "keysOf ''</li>'' = []"
    by (simp_all add: matchToken_def isWordChar_def)
  have f: "forEachItem demoTemplates [hd (tl demoItems)] None 0 [] = Inr ''<li><!--<b>-->Second Item</li>''"
    by (simp add: demoTemplates_def defaults_def demoItems_def eval_defs)
  have b: "buildHtml demoTemplates [hd (tl demoItems)] None 0 = Inr ''<nav id=\"c1\"><li>Second Item</li></nav>''"
    by (subst buildHtml_unfold[OF f]) (simp add: demoTemplates_def defaults_def demoItems_def eval_defs)
  have c: "clean ''<li><!--a-->''" "\<not> sublist ''-->'' ''<b>''"
    "stripComments ''<li><!--a-->'' = ''<li>''" "stripComments ''Second Item</li>'' = ''Second Item</li>''"
    by (simp_all add: matchComment_def sublist_Cons_right)
  from placeholders_and_comments[of "''<li style=\"width:100%\">''" "''title''" "''%nope%</li>''"
      "[(''title'', ''Home'')]" "''<li style=\"width:100%\">''" "[]" demoTemplates
      "[hd (tl demoItems)]" None 0 "''<nav id=\"c1\"><li>Second Item</li></nav>''"
      "''<li><!--a-->''" "''<b>''" "''Second Item</li>''"]
    placeholders_and_comments[of "[]" "''nope''" "''</li>''" "[(''title'', ''Home'')]" "''</li>''"]
    a f b c
  show ?thesis by simp
qed

text \<open>
  A switched-off block inside a switched-off block: stripping ends at the closer of the
  inner block, and what follows it stays in the markup that \<open>buildHtml\<close> returns.
\<close>

theorem nested_blocks_counterexample:
  "\<not> isLinked (hd (tl demoItems)) \<and> \<not> hasSubpages (hd (tl demoItems)) \<and>
   forEachItem nestedTemplates [hd (tl demoItems)] None 0 [] =
     Inr ''<li><!--A<!--B-->C-->Second Item</li>'' \<and>
   buildHtml nestedTemplates [hd (tl demoItems)] None 0 =
     Inr ''<nav><li>C-->Second Item</li></nav>''"
proof -
  have f: "forEachItem nestedTemplates [hd (tl demoItems)] None 0 [] =
      Inr ''<li><!--A<!--B-->C-->Second Item</li>''"
    by (simp add: nestedTemplates_def defaults_def demoItems_def eval_defs)
  have b: "buildHtml nestedTemplates [hd (tl demoItems)] None 0 =
      Inr ''<nav><li>C-->Second Item</li></nav>''"
    by (subst buildHtml_unfold[OF f]) (simp add: nestedTemplates_def defaults_def demoItems_def eval_defs)
  from f b show ?thesis by (simp add: demoItems_def)
qed



text \<open>
  C10. The effects of a call of \<open>open\<close> that returns true contain the event
  \<open>madj2k-flyoutmenu-close\<close> immediately followed by \<open>madj2k-slidemenu-opening\<close>; the
  open class and the opening class are added to the container later, no class is added
  to the container and no other event is dispatched before, and the container carried
  neither class when the call began.
\<close>

theorem open_event_order:
  "open parseHtml w = Inr (True, w') \<Longrightarrow>
     (\<exists>cl pre mid rest.
        menuClassList w = Some cl \<and>
        openStatusClass (settings w') \<notin> set cl \<and>
        animationOpenStatusClass (settings w') \<notin> set cl \<and>
        trace w' = trace w @ pre
          @ [Dispatch ''madj2k-flyoutmenu-close'', Dispatch ''madj2k-slidemenu-opening'']
          @ mid
          @ [ClassAdd Menu (openStatusClass (settings w')),
             ClassAdd Menu (animationOpenStatusClass (settings w'))]
          @ rest \<and>
        (\<forall>c. ClassAdd Menu c \<notin> set (pre @ mid)) \<and>
        (\<forall>n. Dispatch n \<notin> set (pre @ mid)))"
proof -
  assume "open parseHtml w = Inr (True, w')"
  from open_True_summary[OF this] show ?thesis
  proof (elim exE conjE)
    fix w1 crd cl pre mid rest
    assume s: "settings w' = (settings w1)\<lparr>openCard := Some crd\<rparr>"
       "menuClassList w = Some cl"
       "openStatusClass (settings w1) \<notin> set cl"
       "animationOpenStatusClass (settings w1) \<notin> set cl"
       "trace w' = trace w @ pre
             @ [Dispatch ''madj2k-flyoutmenu-close'', Dispatch ''madj2k-slidemenu-opening'']
             @ mid
             @ [ClassAdd Menu (openStatusClass (settings w1)),
                ClassAdd Menu (animationOpenStatusClass (settings w1))]
             @ rest
             @ [SetTimeout OpenDone (animationDuration (settings w1))]"
       "list_all quiet pre" "list_all quiet mid"
    from s(6,7) have q: "list_all quiet (pre @ mid)" by simp
    show ?thesis
      apply (rule exI[of _ cl], rule exI[of _ pre], rule exI[of _ mid])
      apply (rule exI[of _ "rest @ [SetTimeout OpenDone (animationDuration (settings w1))]"])
      using s(1-5) quiet_not(1,2)[OF q] by simp
  qed
qed

theorem open_event_order_witness:
  "\<exists>w' pre mid rest.
     open demoParse loadedPage = Inr (True, w') \<and>
     menuClassList loadedPage = Some [''slide-nav''] \<and>
     trace w' = trace loadedPage @ pre
       @ [Dispatch ''madj2k-flyoutmenu-close'', Dispatch ''madj2k-slidemenu-opening'']
       @ mid @ [ClassAdd Menu ''open'', ClassAdd Menu ''opening''] @ rest \<and>
     ClassAdd Menu ''open'' \<notin> set (pre @ mid) \<and> ClassAdd Menu ''opening'' \<notin> set (pre @ mid)"
proof -
  from loadedPage_opens obtain w' where a: "open demoParse loadedPage = Inr (True, w')" by blast
  have la: "isLoaded (settings loadedPage)" by (simp add: page_defs)
  from open_True_summary[OF a] have oc: "openStatusClass (settings w') = ''open''"
    "animationOpenStatusClass (settings w') = ''opening''"
    using la by (auto simp: loadMenu_def page_defs)
  from open_event_order[OF a] oc a show ?thesis
    by (auto simp: page_defs)
qed







text \<open>
  C1, amended. Take templates cut at their slots and a marker text such that every
  rendered half of a template has its comments closed and, the comments removed, holds no
  \<open><!\<close>, ends neither with \<open><\<close> nor with a beginning of the marker, and such that the two
  halves of every rendered item block hold the marker once and those of every rendered
  wrapper never; take a non-empty tree in which every item with children has
  \<open>hasSubpages\<close> set. Then \<open>buildHtml\<close> returns, and the marker occurs in the returned
  text as often as the tree has items: one rendered item block per item.
\<close>

theorem item_blocks_counted:
  assumes "templatesSplit st A B C D E F"
    and "blocksOk st m A B C D items None level"
    and "wrapOk st m C D E F items None level"
    and "consistent items"
  shows "\<exists>out. buildHtml st items None level = Inr out \<and> occurrences m out = countItems items"
  using build_count(1)[OF assms(1-3)] consistent_rendered[OF assms(4)] by auto

theorem item_blocks_counted_witness:
  "templatesSplit listTemplates
     ''<li class=\"item %activeClass%\">%ifHasChildrenStart%<i></i>%ifHasChildrenEnd%%title%''
     ''</li>'' ''<ul><li class=\"item-back\">%title%</li>'' ''</ul>'' ''<nav id=\"c%uid%\">''
     ''</nav>'' \<and>
   blocksOk listTemplates ''<li class=\"item ''
     ''<li class=\"item %activeClass%\">%ifHasChildrenStart%<i></i>%ifHasChildrenEnd%%title%''
     ''</li>'' ''<ul><li class=\"item-back\">%title%</li>'' ''</ul>'' demoItems None 0 \<and>
   wrapOk listTemplates ''<li class=\"item '' ''<ul><li class=\"item-back\">%title%</li>''
     ''</ul>'' ''<nav id=\"c%uid%\">'' ''</nav>'' demoItems None 0 \<and>
   consistent demoItems \<and> countItems demoItems = 3 \<and>
   (\<exists>out. buildHtml listTemplates demoItems None 0 = Inr out \<and>
      occurrences ''<li class=\"item '' out = countItems demoItems)"
  using item_blocks_counted[OF listTemplates_split demo_blocks demo_wrap demo_consistent(1)]
    listTemplates_split demo_blocks demo_wrap demo_consistent
  by simp

text \<open>
  A tree of one item that has a child but no \<open>hasSubpages\<close>: the templates and the marker
  are as required, the tree has two items, and the returned text holds one item block.
  And templates whose outer wrapper has its slot inside a comment: the item block of a
  tree of one item is cut off by the stripping, and the returned text holds none.
\<close>

theorem unflagged_children_counterexample:
  "templatesSplit listTemplates
     ''<li class=\"item %activeClass%\">%ifHasChildrenStart%<i></i>%ifHasChildrenEnd%%title%''
     ''</li>'' ''<ul><li class=\"item-back\">%title%</li>'' ''</ul>'' ''<nav id=\"c%uid%\">''
     ''</nav>'' \<and>
   blocksOk listTemplates ''<li class=\"item ''
     ''<li class=\"item %activeClass%\">%ifHasChildrenStart%<i></i>%ifHasChildrenEnd%%title%''
     ''</li>'' ''<ul><li class=\"item-back\">%title%</li>'' ''</ul>'' unflaggedItems None 0 \<and>
   wrapOk listTemplates ''<li class=\"item '' ''<ul><li class=\"item-back\">%title%</li>''
     ''</ul>'' ''<nav id=\"c%uid%\">'' ''</nav>'' unflaggedItems None 0 \<and>
   \<not> consistent unflaggedItems \<and>
   buildHtml listTemplates unflaggedItems None 0 =
     Inr ''<nav id=\"c0\"><li class=\"item \">One</li></nav>'' \<and>
   occurrences ''<li class=\"item '' ''<nav id=\"c0\"><li class=\"item \">One</li></nav>'' = 1 \<and>
   countItems unflaggedItems = 2 \<and>
   consistent [hd (tl demoItems)] \<and> countItems [hd (tl demoItems)] = 1 \<and>
   buildHtml hiddenTemplates [hd (tl demoItems)] None 0 = Inr ''<nav>Second Item</li>--></nav>'' \<and>
   occurrences ''<li class=\"item '' ''<nav>Second Item</li>--></nav>'' = 0"
  using listTemplates_split unflagged_blocks unflagged_wrap unflagged_out unflagged_counts
    hidden_out hidden_counts
  by simp


end
